theory Spec2Isabelle
  imports Main "HOL-Library.AList"
begin

section \<open>JavaScript strings\<close>

text \<open>
  A JavaScript string is a sequence of UTF-16 code units. The model covers the code
  units below 256 (Basic Latin and Latin-1 Supplement): a \<open>char\<close> \<open>c\<close> stands for the
  code unit \<open>of_char c\<close>. The built-in string operations the servers call are written
  out on that range as ECMAScript defines them.
\<close>

text \<open>
  \<^verbatim>\<open>String.prototype.trim\<close> strips WhiteSpace and LineTerminator code points from both
  ends. Below 256 these are TAB, LF, VT, FF, CR, SPACE and NO-BREAK SPACE.
\<close>

definition isWhiteSpace :: "char \<Rightarrow> bool" where
  "isWhiteSpace c = (c \<in> set [CHR 0x09, CHR 0x0A, CHR 0x0B, CHR 0x0C, CHR 0x0D, CHR 0x20, CHR 0xA0])"

definition trim :: "string \<Rightarrow> string" where
  "trim s = rev (dropWhile isWhiteSpace (rev (dropWhile isWhiteSpace s)))"

text \<open>
  \<^verbatim>\<open>String.prototype.toLowerCase\<close>: below 256 the code units with a lower-case mapping
  are A-Z and the Latin-1 capitals 0xC0-0xDE without the multiplication sign 0xD7; each
  maps to the code unit 32 above it.
\<close>

definition toLowerChar :: "char \<Rightarrow> char" where
  "toLowerChar c =
     (let n = (of_char c :: nat)
      in if (65 \<le> n \<and> n \<le> 90) \<or> (192 \<le> n \<and> n \<le> 222 \<and> n \<noteq> 215)
         then char_of (n + 32) else c)"

definition toLowerCase :: "string \<Rightarrow> string" where
  "toLowerCase s = map toLowerChar s"

text \<open>\<^verbatim>\<open>s.startsWith(p)\<close> and \<^verbatim>\<open>s.includes(sub)\<close>.\<close>

definition startsWith :: "string \<Rightarrow> string \<Rightarrow> bool" where
  "startsWith s p = (take (length p) s = p)"

fun includes_str :: "string \<Rightarrow> string \<Rightarrow> bool" where
  "includes_str [] sub = (sub = [])"
| "includes_str (c # cs) sub = (startsWith (c # cs) sub \<or> includes_str cs sub)"

section \<open>The regular expressions of the guard\<close>

text \<open>
  \<^verbatim>\<open>new RegExp(`\\b${keyword}\\b`, "i")\<close> has the flag \<open>i\<close> and not the flag \<open>u\<close>.
  Without \<open>u\<close>, the word characters of \<^verbatim>\<open>\b\<close> are the 63 characters
  \<^verbatim>\<open>[A-Za-z0-9_]\<close>, and two characters match under \<open>i\<close> when Canonicalize maps them
  to the same code unit. Canonicalize upper-cases a character unless the upper-case
  form is longer than one code unit (0xDF) or would turn a character from 128 on into
  one below 128; two Latin-1 letters have their capital outside Latin-1 (0xFF and 0xB5),
  so the result is a code-unit number.
\<close>

definition isWordChar :: "char \<Rightarrow> bool" where
  "isWordChar c =
     (let n = (of_char c :: nat)
      in (48 \<le> n \<and> n \<le> 57) \<or> (65 \<le> n \<and> n \<le> 90) \<or> n = 95 \<or> (97 \<le> n \<and> n \<le> 122))"

definition canonicalize :: "char \<Rightarrow> nat" where
  "canonicalize c =
     (let n = (of_char c :: nat)
      in if 97 \<le> n \<and> n \<le> 122 then n - 32
         else if 224 \<le> n \<and> n \<le> 254 \<and> n \<noteq> 247 then n - 32
         else if n = 255 then 376
         else if n = 181 then 924
         else n)"

text \<open>
  The assertion \<^verbatim>\<open>\b\<close> at end index \<open>e\<close> holds when exactly one of the characters at
  \<open>e - 1\<close> and \<open>e\<close> is a word character; an index outside the input counts as a
  non-word character.
\<close>

definition isWordBoundary :: "string \<Rightarrow> nat \<Rightarrow> bool" where
  "isWordBoundary s e =
     ((0 < e \<and> isWordChar (s ! (e - 1))) \<noteq> (e < length s \<and> isWordChar (s ! e)))"

text \<open>
  A match of \<^verbatim>\<open>\bkeyword\b\<close> that starts at index \<open>i\<close>; \<^verbatim>\<open>regex.test(s)\<close> (no flag
  \<open>g\<close>, so the search starts at index 0) tries every start index from 0 to the length
  of the input.
\<close>

definition matchesAt :: "string \<Rightarrow> string \<Rightarrow> nat \<Rightarrow> bool" where
  "matchesAt keyword s i =
     (isWordBoundary s i \<and>
      i + length keyword \<le> length s \<and>
      map canonicalize (take (length keyword) (drop i s)) = map canonicalize keyword \<and>
      isWordBoundary s (i + length keyword))"

definition regex_test :: "string \<Rightarrow> string \<Rightarrow> bool" where
  "regex_test keyword s = list_ex (matchesAt keyword s) [0..<Suc (length s)]"

section \<open>The read-only query guard\<close>

definition forbiddenKeywords :: "string list" where
  "forbiddenKeywords =
     [''insert'', ''update'', ''delete'', ''drop'', ''create'', ''alter'',
      ''truncate'', ''grant'', ''revoke'', ''copy'', ''execute'', ''call'']"

text \<open>The loop over the forbidden keywords: the first keyword that matches returns false.\<close>

fun scanForbidden :: "string list \<Rightarrow> string \<Rightarrow> bool" where
  "scanForbidden [] normalizedSql = True"
| "scanForbidden (keyword # rest) normalizedSql =
     (if regex_test keyword normalizedSql then False else scanForbidden rest normalizedSql)"

definition isReadOnlyQuery :: "string \<Rightarrow> bool" where
  "isReadOnlyQuery sql =
     (let normalizedSql = toLowerCase (trim sql)
      in if \<not> startsWith normalizedSql ''select'' \<and>
            \<not> startsWith normalizedSql ''with'' \<and>
            \<not> startsWith normalizedSql ''explain''
         then False
         else scanForbidden forbiddenKeywords normalizedSql)"

section \<open>Identifier escaping\<close>

text \<open>
  \<^verbatim>\<open>identifier.replace(/"/g, '""')\<close> replaces every double quote, left to right, by two;
  the template literal puts one double quote before and one after the result.
\<close>

definition dquote :: char where
  "dquote = CHR 0x22"

fun replaceQuotes :: "string \<Rightarrow> string" where
  "replaceQuotes [] = []"
| "replaceQuotes (c # cs) =
     (if c = dquote then dquote # dquote # replaceQuotes cs else c # replaceQuotes cs)"

definition escapeIdentifier :: "string \<Rightarrow> string" where
  "escapeIdentifier identifier = [dquote] @ replaceQuotes identifier @ [dquote]"

section \<open>Values, numbers and errors\<close>

text \<open>
  The values the handlers build and hand to \<^verbatim>\<open>JSON.stringify\<close>, and the values a
  database row holds. Numbers are the integers and \<open>NaN\<close>: every number the modelled
  handlers compute is a port, a row limit or a row count, far inside the range where
  JavaScript's doubles are exact. A handler's result is the value it serialises; the
  pretty-printing itself is the library's.
\<close>

datatype jsnum = NaN | Num int

datatype jsval =
    JUndefined
  | JNull
  | JBool bool
  | JNumber jsnum
  | JString string
  | JArray "jsval list"
  | JObject "(string \<times> jsval) list"

text \<open>
  The source throws the one class \<^verbatim>\<open>Error\<close> with a message. The constructor names the
  throw site after the error kinds of the specification; its argument is the message.
  \<open>TypeError\<close> is the engine's own error for a property read on \<^verbatim>\<open>undefined\<close> or a
  call of a non-function, \<open>DriverError\<close> and \<open>ParseError\<close> whatever a collaborator
  raises.
\<close>

datatype error =
    DuplicateNameError string
  | NotFoundError string
  | NotReadOnlyError string
  | FileNotFoundError string
  | UnsupportedFormatError string
  | TypeError string
  | DriverError string
  | ParseError string

fun message :: "error \<Rightarrow> string" where
  "message (DuplicateNameError m) = m"
| "message (NotFoundError m) = m"
| "message (NotReadOnlyError m) = m"
| "message (FileNotFoundError m) = m"
| "message (UnsupportedFormatError m) = m"
| "message (TypeError m) = m"
| "message (DriverError m) = m"
| "message (ParseError m) = m"

definition squote :: char where
  "squote = CHR 0x27"

text \<open>\<^verbatim>\<open>Array.prototype.join\<close> on an array of strings.\<close>

fun join :: "string \<Rightarrow> string list \<Rightarrow> string" where
  "join sep [] = []"
| "join sep [x] = x"
| "join sep (x # y # ys) = x @ sep @ join sep (y # ys)"

text \<open>Number-to-string conversion of an integer, as a template literal renders it.\<close>

definition digitChar :: "nat \<Rightarrow> char" where
  "digitChar d = ''0123456789'' ! d"

fun digitsOf :: "nat \<Rightarrow> string" where
  "digitsOf n = (if n < 10 then [digitChar n] else digitsOf (n div 10) @ [digitChar (n mod 10)])"

declare digitsOf.simps [simp del]

definition numberToString :: "int \<Rightarrow> string" where
  "numberToString i = (if i < 0 then CHR ''-'' # digitsOf (nat (- i)) else digitsOf (nat i))"

text \<open>Property read on a row or an object literal, and JavaScript's truthiness.\<close>

definition getField :: "(string \<times> jsval) list \<Rightarrow> string \<Rightarrow> jsval" where
  "getField props k = (case map_of props k of None \<Rightarrow> JUndefined | Some v \<Rightarrow> v)"

fun getProp :: "jsval \<Rightarrow> string \<Rightarrow> jsval" where
  "getProp (JObject props) k = getField props k"
| "getProp v k = JUndefined"

fun truthy :: "jsval \<Rightarrow> bool" where
  "truthy JUndefined = False"
| "truthy JNull = False"
| "truthy (JBool b) = b"
| "truthy (JNumber NaN) = False"
| "truthy (JNumber (Num i)) = (i \<noteq> 0)"
| "truthy (JString s) = (s \<noteq> [])"
| "truthy (JArray xs) = True"
| "truthy (JObject props) = True"

section \<open>The connection registry\<close>

text \<open>
  A registry entry is \<^verbatim>\<open>{ pool, config: { host, port, database, user } }\<close>. The pool
  is the handle \<^verbatim>\<open>new Pool(config)\<close> returns; the model identifies it with the options
  it was constructed from, which are the four display fields, the password and the
  three fixed limits.
\<close>

record connConfig =
  host :: string
  port :: int
  database :: string
  user :: string

record poolConfig = connConfig +
  password :: string
  max_clients :: int
  idleTimeoutMillis :: int
  connectionTimeoutMillis :: int

record connection =
  pool :: poolConfig
  config :: connConfig

text \<open>
  \<^verbatim>\<open>const connections = new Map()\<close>: a JavaScript Map keeps its keys in insertion
  order, so the registry is an association list. \<^verbatim>\<open>has\<close> and \<^verbatim>\<open>get\<close> are
  \<^const>\<open>map_of\<close>, \<^verbatim>\<open>set\<close> is \<^const>\<open>AList.update\<close> (a new key goes to the end, an
  old key keeps its place), \<^verbatim>\<open>delete\<close> is \<^const>\<open>AList.delete\<close>, \<^verbatim>\<open>keys()\<close> is
  \<open>map fst\<close>.
\<close>

type_synonym connections = "(string \<times> connection) list"

text \<open>
  The database driver is external. A call of \<^verbatim>\<open>pool.query(text, params)\<close> and of
  \<^verbatim>\<open>pool.end()\<close> is a step of the outside world \<open>'w\<close>: it returns rows or raises, and
  leaves the world changed. \<open>None\<close> for the parameters is a call with the text alone.
\<close>

record qresult =
  rowCount :: jsval
  rows :: "(string \<times> jsval) list list"

record 'w driver =
  pool_query :: "poolConfig \<Rightarrow> string \<Rightarrow> jsval list option \<Rightarrow> 'w \<Rightarrow> (error + qresult) \<times> 'w"
  pool_end :: "poolConfig \<Rightarrow> 'w \<Rightarrow> error option \<times> 'w"

definition getConnection :: "connections \<Rightarrow> string \<Rightarrow> error + poolConfig" where
  "getConnection conns name =
     (case map_of conns name of
        None \<Rightarrow>
          (let joined = join '', '' (map fst conns);
               available = (if joined = [] then ''(none)'' else joined)
           in Inl (NotFoundError (''Connection '' @ [squote] @ name @ [squote] @
                     '' not found. Available connections: '' @ available)))
      | Some conn \<Rightarrow> Inr (pool conn))"

definition addConnection ::
  "string \<Rightarrow> string \<Rightarrow> int \<Rightarrow> string \<Rightarrow> string \<Rightarrow> string \<Rightarrow> connections \<Rightarrow> error + connections"
where
  "addConnection name h p d u pw conns =
     (if map_of conns name \<noteq> None
      then Inl (DuplicateNameError (''Connection '' @ [squote] @ name @ [squote] @
                  '' already exists. Remove it first or use a different name.''))
      else
        (let newPool = \<lparr>host = h, port = p, database = d, user = u, password = pw,
                         max_clients = 5, idleTimeoutMillis = 30000,
                         connectionTimeoutMillis = 5000\<rparr>
         in Inr (AList.update name
                   \<lparr>pool = newPool, config = \<lparr>host = h, port = p, database = d, user = u\<rparr>\<rparr>
                   conns)))"

text \<open>
  \<^verbatim>\<open>removeConnection\<close> awaits \<^verbatim>\<open>conn.pool.end()\<close> before it deletes the entry: when
  ending the pool raises, the entry stays.
\<close>

definition removeConnection ::
  "'w driver \<Rightarrow> string \<Rightarrow> connections \<Rightarrow> 'w \<Rightarrow> (error + unit) \<times> connections \<times> 'w"
where
  "removeConnection drv name conns w =
     (case map_of conns name of
        None \<Rightarrow>
          (Inl (NotFoundError (''Connection '' @ [squote] @ name @ [squote] @ '' not found.'')),
           conns, w)
      | Some conn \<Rightarrow>
          (case pool_end drv (pool conn) w of
             (Some e, w') \<Rightarrow> (Inl e, conns, w')
           | (None, w') \<Rightarrow> (Inr (), AList.delete name conns, w')))"

section \<open>Tool handlers of the PostgreSQL server\<close>

text \<open>
  A handler returns the value it serialises or the error it throws, together with the
  registry and the world it leaves behind. A parameter with a default is an \<open>option\<close>:
  \<open>None\<close> is the argument left out. Each handler is modelled here as one
  uninterrupted call. What another request sees of the registry while
  \<open>handleAddConnection\<close> awaits its probe is modelled further down, by the two parts of
  that handler around its \<^verbatim>\<open>await\<close>.
\<close>

definition handleAddConnection ::
  "'w driver \<Rightarrow> string \<Rightarrow> string \<Rightarrow> int option \<Rightarrow> string \<Rightarrow> string \<Rightarrow> string \<Rightarrow>
     connections \<Rightarrow> 'w \<Rightarrow> (error + jsval) \<times> connections \<times> 'w"
where
  "handleAddConnection drv name h port_arg d u pw conns w =
     (let p = (case port_arg of None \<Rightarrow> 5432 | Some n \<Rightarrow> n)
      in case addConnection name h p d u pw conns of
           Inl e \<Rightarrow> (Inl e, conns, w)
         | Inr conns1 \<Rightarrow>
             (case getConnection conns1 name of
                Inl e \<Rightarrow> (Inl e, AList.delete name conns1, w)
              | Inr db \<Rightarrow>
                  (case pool_query drv db ''SELECT 1'' None w of
                     (Inl e, w') \<Rightarrow> (Inl e, AList.delete name conns1, w')
                   | (Inr r, w') \<Rightarrow>
                       (Inr (JObject
                          [(''success'', JBool True),
                           (''message'', JString (''Connection '' @ [squote] @ name @ [squote] @
                                            '' added successfully'')),
                           (''connection'', JObject
                              [(''name'', JString name),
                               (''host'', JString h),
                               (''port'', JNumber (Num p)),
                               (''database'', JString d),
                               (''user'', JString u)])]),
                        conns1, w'))))"

definition handleRemoveConnection ::
  "'w driver \<Rightarrow> string \<Rightarrow> connections \<Rightarrow> 'w \<Rightarrow> (error + jsval) \<times> connections \<times> 'w"
where
  "handleRemoveConnection drv name conns w =
     (case removeConnection drv name conns w of
        (Inl e, conns', w') \<Rightarrow> (Inl e, conns', w')
      | (Inr _, conns', w') \<Rightarrow>
          (Inr (JObject
             [(''success'', JBool True),
              (''message'', JString (''Connection '' @ [squote] @ name @ [squote] @
                               '' removed successfully''))]),
           conns', w'))"

definition handleListConnections :: "connections \<Rightarrow> jsval" where
  "handleListConnections conns =
     JArray (map (\<lambda>(name, info).
               JObject [(''name'', JString name),
                        (''host'', JString (host (config info))),
                        (''port'', JNumber (Num (port (config info)))),
                        (''database'', JString (database (config info))),
                        (''user'', JString (user (config info)))])
             conns)"

definition handleQuery ::
  "'w driver \<Rightarrow> connections \<Rightarrow> string \<Rightarrow> string \<Rightarrow> jsval list option \<Rightarrow> int option \<Rightarrow> 'w \<Rightarrow>
     (error + jsval) \<times> 'w"
where
  "handleQuery drv conns connection sql params_arg limit_arg w =
     (let params = (case params_arg of None \<Rightarrow> [] | Some ps \<Rightarrow> ps);
          limit = (case limit_arg of None \<Rightarrow> 100 | Some n \<Rightarrow> n)
      in if \<not> isReadOnlyQuery sql
         then (Inl (NotReadOnlyError
                 ''Only read-only queries (SELECT, WITH, EXPLAIN) are allowed. Modification statements are not permitted.''),
               w)
         else
           (let effectiveLimit = min (max 1 limit) 1000
            in case getConnection conns connection of
                 Inl e \<Rightarrow> (Inl e, w)
               | Inr db \<Rightarrow>
                   (let trimmed = trim sql;
                        querySql = (if \<not> includes_str (toLowerCase trimmed) ''limit''
                                    then trimmed @ '' LIMIT '' @ numberToString effectiveLimit
                                    else trimmed)
                    in case pool_query drv db querySql (Some params) w of
                         (Inl e, w') \<Rightarrow> (Inl e, w')
                       | (Inr result, w') \<Rightarrow>
                           (Inr (JObject [(''rowCount'', rowCount result),
                                          (''rows'', JArray (map JObject (rows result)))]),
                            w'))))"

subsection \<open>Comparing row counts\<close>

text \<open>
  \<^verbatim>\<open>parseInt\<close> is the host's and is a parameter of the model. The callback
  \<^verbatim>\<open>r => parseInt(r.rows[0].count)\<close> raises the engine's TypeError when the result has no
  row, and reads \<^verbatim>\<open>undefined\<close> when the row has no column \<open>count\<close>.
\<close>

definition countOf :: "(jsval \<Rightarrow> jsnum) \<Rightarrow> qresult \<Rightarrow> error + jsnum" where
  "countOf parseInt r =
     (case rows r of
        [] \<Rightarrow> Inl (TypeError ''Cannot read properties of undefined (reading 'count')'')
      | row # _ \<Rightarrow> Inr (parseInt (getField row ''count'')))"

text \<open>
  The table names of the loop are the caller's strings or the \<open>table_name\<close> values of
  the catalogue rows, which are whatever the driver returned. \<^verbatim>\<open>escapeIdentifier\<close> on a
  value that is not a string raises a TypeError (the wording is V8's).
\<close>

definition escapeIdentifierValue :: "jsval \<Rightarrow> error + string" where
  "escapeIdentifierValue v =
     (case v of
        JString s \<Rightarrow> Inr (escapeIdentifier s)
      | JUndefined \<Rightarrow> Inl (TypeError ''Cannot read properties of undefined (reading 'replace')'')
      | JNull \<Rightarrow> Inl (TypeError ''Cannot read properties of null (reading 'replace')'')
      | _ \<Rightarrow> Inl (TypeError ''identifier.replace is not a function''))"

text \<open>\<^verbatim>\<open>targetCount - sourceCount\<close> and \<^verbatim>\<open>sourceCount === targetCount\<close> on numbers.\<close>

fun numSub :: "jsnum \<Rightarrow> jsnum \<Rightarrow> jsnum" where
  "numSub (Num a) (Num b) = Num (a - b)"
| "numSub a b = NaN"

fun numStrictEq :: "jsnum \<Rightarrow> jsnum \<Rightarrow> bool" where
  "numStrictEq (Num a) (Num b) = (a = b)"
| "numStrictEq a b = False"

definition errorEntry :: "jsval \<Rightarrow> error \<Rightarrow> jsval" where
  "errorEntry table e = JObject [(''table'', table), (''error'', JString (message e))]"

text \<open>
  One pass of the loop body. The template literal is evaluated first; then
  \<^verbatim>\<open>Promise.all\<close> starts the source query and the target query, in this order, and both
  run whatever the other does. A failure on the target side is caught by its own
  \<^verbatim>\<open>.catch(() => null)\<close>; a failure on the source side rejects \<^verbatim>\<open>Promise.all\<close> and
  reaches the \<^verbatim>\<open>catch\<close> of the loop body.
\<close>

definition compareOne ::
  "'w driver \<Rightarrow> (jsval \<Rightarrow> jsnum) \<Rightarrow> poolConfig \<Rightarrow> poolConfig \<Rightarrow> string \<Rightarrow> jsval \<Rightarrow> 'w \<Rightarrow>
     jsval \<times> 'w"
where
  "compareOne drv parseInt sourceDb targetDb schema table w =
     (case escapeIdentifierValue table of
        Inl e \<Rightarrow> (errorEntry table e, w)
      | Inr quoted \<Rightarrow>
          (let countQuery = ''SELECT COUNT(*) as count FROM '' @ escapeIdentifier schema @
                            ''.'' @ quoted;
               (sourceReply, w1) = pool_query drv sourceDb countQuery None w;
               (targetReply, w2) = pool_query drv targetDb countQuery None w1;
               sourceCount = (case sourceReply of Inl e \<Rightarrow> Inl e | Inr r \<Rightarrow> countOf parseInt r);
               targetCount = (case targetReply of
                                Inl e \<Rightarrow> None
                              | Inr r \<Rightarrow> (case countOf parseInt r of
                                            Inl e \<Rightarrow> None | Inr n \<Rightarrow> Some n))
           in case sourceCount of
                Inl e \<Rightarrow> (errorEntry table e, w2)
              | Inr sc \<Rightarrow>
                  (JObject
                     [(''table'', table),
                      (''source_count'', JNumber sc),
                      (''target_count'', (case targetCount of None \<Rightarrow> JNull | Some tc \<Rightarrow> JNumber tc)),
                      (''difference'', (case targetCount of
                                          None \<Rightarrow> JNull | Some tc \<Rightarrow> JNumber (numSub tc sc))),
                      (''match'', JBool (case targetCount of
                                          None \<Rightarrow> False | Some tc \<Rightarrow> numStrictEq sc tc))],
                   w2)))"



section \<open>The spreadsheet server\<close>

text \<open>
  The path functions, the file system and the spreadsheet parser are the platform's:
  \<^verbatim>\<open>path.resolve\<close> (which reads the working directory), \<^verbatim>\<open>path.extname\<close>,
  \<^verbatim>\<open>fs.existsSync\<close>, \<^verbatim>\<open>XLSX.readFile\<close>, \<^verbatim>\<open>XLSX.utils.sheet_to_json\<close> (its boolean
  is the option \<^verbatim>\<open>{ header: 1 }\<close>), \<^verbatim>\<open>XLSX.utils.decode_range\<close> and
  \<^verbatim>\<open>XLSX.utils.encode_cell\<close> (row, then column). Reading a file is a step of the outside
  world. A worksheet is the parser's object: cells under their addresses, the used range
  under \<open>!ref\<close>.
\<close>

record workbook =
  SheetNames :: "string list"
  Sheets :: "(string \<times> jsval) list"

record cellRange =
  start_row :: int
  start_col :: int
  end_row :: int
  end_col :: int

record 'w platform =
  path_resolve :: "string \<Rightarrow> string"
  path_extname :: "string \<Rightarrow> string"
  fs_existsSync :: "string \<Rightarrow> 'w \<Rightarrow> bool"
  xlsx_readFile :: "string \<Rightarrow> 'w \<Rightarrow> (error + workbook) \<times> 'w"
  sheet_to_json :: "jsval \<Rightarrow> bool \<Rightarrow> error + jsval"
  decode_range :: "jsval \<Rightarrow> error + cellRange"
  encode_cell :: "int \<Rightarrow> int \<Rightarrow> string"

definition supportedExtensions :: "string list" where
  "supportedExtensions = [''.xlsx'', ''.xls'', ''.csv'', ''.ods'']"

definition validateFilePath :: "'w platform \<Rightarrow> string \<Rightarrow> 'w \<Rightarrow> error + string" where
  "validateFilePath env filePath w =
     (let resolvedPath = path_resolve env filePath
      in if \<not> fs_existsSync env resolvedPath w
         then Inl (FileNotFoundError (''File not found: '' @ resolvedPath))
         else
           (let ext = toLowerCase (path_extname env resolvedPath)
            in if ext \<notin> set supportedExtensions
               then Inl (UnsupportedFormatError
                      (''Unsupported file format: '' @ ext @ ''. Supported formats: '' @
                       join '', '' supportedExtensions))
               else Inr resolvedPath))"

text \<open>
  \<^verbatim>\<open>sheetName || workbook.SheetNames[0]\<close>: a missing or empty sheet name selects the
  first sheet, which is \<^verbatim>\<open>undefined\<close> (\<open>None\<close>) in a workbook without sheets.
\<close>

definition targetSheetOf :: "workbook \<Rightarrow> string option \<Rightarrow> string option" where
  "targetSheetOf wb sheetName =
     (let firstSheet = (case SheetNames wb of [] \<Rightarrow> None | n # _ \<Rightarrow> Some n)
      in case sheetName of
           None \<Rightarrow> firstSheet
         | Some n \<Rightarrow> if n = [] then firstSheet else Some n)"

definition getWorksheet :: "workbook \<Rightarrow> string option \<Rightarrow> error + jsval" where
  "getWorksheet wb sheetName =
     (let targetSheet = targetSheetOf wb sheetName;
          shown = (case targetSheet of None \<Rightarrow> ''undefined'' | Some n \<Rightarrow> n)
      in if (case targetSheet of None \<Rightarrow> True | Some n \<Rightarrow> n \<notin> set (SheetNames wb))
         then Inl (NotFoundError (''Sheet '' @ [dquote] @ shown @ [dquote] @
                     '' not found. Available sheets: '' @ join '', '' (SheetNames wb)))
         else Inr (case targetSheet of
                     None \<Rightarrow> JUndefined
                   | Some n \<Rightarrow> getField (Sheets wb) n))"

text \<open>
  A tool answers with one text item: \<open>ToolText v\<close> is the item whose text is the
  serialised \<open>v\<close>, \<open>ToolError m\<close> the item with text \<open>m\<close> and \<^verbatim>\<open>isError: true\<close>. Each
  tool body is one \<^verbatim>\<open>try\<close> block whose \<^verbatim>\<open>catch\<close> builds the error item.
\<close>

datatype toolResult = ToolText jsval | ToolError string

definition errorResult :: "error \<Rightarrow> toolResult" where
  "errorResult e = ToolError (''Error: '' @ message e)"

definition list_sheets :: "'w platform \<Rightarrow> string \<Rightarrow> 'w \<Rightarrow> toolResult \<times> 'w" where
  "list_sheets env filePath w =
     (case validateFilePath env filePath w of
        Inl e \<Rightarrow> (errorResult e, w)
      | Inr resolvedPath \<Rightarrow>
          (case xlsx_readFile env resolvedPath w of
             (Inl e, w') \<Rightarrow> (errorResult e, w')
           | (Inr wb, w') \<Rightarrow>
               (ToolText (JObject
                  [(''sheets'', JArray (map JString (SheetNames wb))),
                   (''count'', JNumber (Num (int (length (SheetNames wb)))))]),
                w')))"

definition read_spreadsheet ::
  "'w platform \<Rightarrow> string \<Rightarrow> string option \<Rightarrow> bool \<Rightarrow> 'w \<Rightarrow> toolResult \<times> 'w"
where
  "read_spreadsheet env filePath sheetName useHeader w =
     (case validateFilePath env filePath w of
        Inl e \<Rightarrow> (errorResult e, w)
      | Inr resolvedPath \<Rightarrow>
          (case xlsx_readFile env resolvedPath w of
             (Inl e, w') \<Rightarrow> (errorResult e, w')
           | (Inr wb, w') \<Rightarrow>
               (case getWorksheet wb sheetName of
                  Inl e \<Rightarrow> (errorResult e, w')
                | Inr worksheet \<Rightarrow>
                    (case sheet_to_json env worksheet (\<not> useHeader) of
                       Inl e \<Rightarrow> (errorResult e, w')
                     | Inr data \<Rightarrow> (ToolText data, w')))))"

text \<open>
  \<^verbatim>\<open>worksheet[key]\<close> raises the engine's TypeError on \<^verbatim>\<open>undefined\<close> and \<^verbatim>\<open>null\<close> (the
  wording is V8's); \<^verbatim>\<open>cell ? cell.v : null\<close> is the value pushed for a cell.
\<close>

definition readProperty :: "jsval \<Rightarrow> string \<Rightarrow> error + jsval" where
  "readProperty obj k =
     (case obj of
        JUndefined \<Rightarrow>
          Inl (TypeError (''Cannot read properties of undefined (reading '' @ [squote] @ k @
                          [squote] @ '')''))
      | JNull \<Rightarrow>
          Inl (TypeError (''Cannot read properties of null (reading '' @ [squote] @ k @
                          [squote] @ '')''))
      | _ \<Rightarrow> Inr (getProp obj k))"

definition cellValue :: "jsval \<Rightarrow> string \<Rightarrow> error + jsval" where
  "cellValue worksheet cellAddress =
     (case readProperty worksheet cellAddress of
        Inl e \<Rightarrow> Inl e
      | Inr cell \<Rightarrow> Inr (if truthy cell then getProp cell ''v'' else JNull))"

text \<open>A loop that pushes one value per element and stops at the first exception.\<close>

fun collect :: "('a \<Rightarrow> error + 'b) \<Rightarrow> 'a list \<Rightarrow> error + 'b list" where
  "collect f [] = Inr []"
| "collect f (x # xs) =
     (case f x of
        Inl e \<Rightarrow> Inl e
      | Inr y \<Rightarrow> (case collect f xs of Inl e \<Rightarrow> Inl e | Inr ys \<Rightarrow> Inr (y # ys)))"

definition get_cell_range ::
  "'w platform \<Rightarrow> string \<Rightarrow> string option \<Rightarrow> string \<Rightarrow> 'w \<Rightarrow> toolResult \<times> 'w"
where
  "get_cell_range env filePath sheetName rangeText w =
     (case validateFilePath env filePath w of
        Inl e \<Rightarrow> (errorResult e, w)
      | Inr resolvedPath \<Rightarrow>
          (case xlsx_readFile env resolvedPath w of
             (Inl e, w') \<Rightarrow> (errorResult e, w')
           | (Inr wb, w') \<Rightarrow>
               (case getWorksheet wb sheetName of
                  Inl e \<Rightarrow> (errorResult e, w')
                | Inr worksheet \<Rightarrow>
                    (case decode_range env (JString rangeText) of
                       Inl e \<Rightarrow> (errorResult e, w')
                     | Inr rangeObj \<Rightarrow>
                         (case collect
                                 (\<lambda>row.
                                    case collect
                                           (\<lambda>col. cellValue worksheet (encode_cell env row col))
                                           [start_col rangeObj..end_col rangeObj] of
                                      Inl e \<Rightarrow> Inl e
                                    | Inr rowData \<Rightarrow> Inr (JArray rowData))
                                 [start_row rangeObj..end_row rangeObj] of
                            Inl e \<Rightarrow> (errorResult e, w')
                          | Inr data \<Rightarrow>
                              (ToolText (JObject [(''range'', JString rangeText),
                                                  (''data'', JArray data)]),
                               w'))))))"

definition get_sheet_info ::
  "'w platform \<Rightarrow> string \<Rightarrow> string option \<Rightarrow> 'w \<Rightarrow> toolResult \<times> 'w"
where
  "get_sheet_info env filePath sheetName w =
     (case validateFilePath env filePath w of
        Inl e \<Rightarrow> (errorResult e, w)
      | Inr resolvedPath \<Rightarrow>
          (case xlsx_readFile env resolvedPath w of
             (Inl e, w') \<Rightarrow> (errorResult e, w')
           | (Inr wb, w') \<Rightarrow>
               (let targetSheet = targetSheetOf wb sheetName
                in case getWorksheet wb sheetName of
                     Inl e \<Rightarrow> (errorResult e, w')
                   | Inr worksheet \<Rightarrow>
                       (case readProperty worksheet ''!ref'' of
                          Inl e \<Rightarrow> (errorResult e, w')
                        | Inr usedRange \<Rightarrow>
                            (case (if truthy usedRange
                                   then (case decode_range env usedRange of
                                           Inl e \<Rightarrow> Inl e
                                         | Inr rangeObj \<Rightarrow>
                                             Inr (end_row rangeObj - start_row rangeObj + 1,
                                                  end_col rangeObj - start_col rangeObj + 1,
                                                  encode_cell env (start_row rangeObj)
                                                    (start_col rangeObj),
                                                  encode_cell env (end_row rangeObj)
                                                    (end_col rangeObj)))
                                   else Inr (0, 0, [], [])) of
                               Inl e \<Rightarrow> (errorResult e, w')
                             | Inr (nRows, nCols, startCell, endCell) \<Rightarrow>
                                 (ToolText (JObject
                                    [(''sheetName'', (case targetSheet of
                                                       None \<Rightarrow> JUndefined
                                                     | Some n \<Rightarrow> JString n)),
                                     (''usedRange'', (if truthy usedRange then usedRange
                                                     else JString ''empty'')),
                                     (''startCell'', JString (if startCell = [] then ''N/A''
                                                              else startCell)),
                                     (''endCell'', JString (if endCell = [] then ''N/A''
                                                            else endCell)),
                                     (''rowCount'', JNumber (Num nRows)),
                                     (''columnCount'', JNumber (Num nCols)),
                                     (''totalSheets'',
                                        JNumber (Num (int (length (SheetNames wb)))))]),
                                  w'))))))"

section \<open>The guard on UTF-16 code units\<close>

text \<open>
  The strings above hold code units below 256. What the guard answers on an arbitrary
  JavaScript string is modelled here on lists of code units, a code unit being a number
  below 65536. \<^verbatim>\<open>trim\<close>, \<^verbatim>\<open>startsWith\<close>, the word characters of \<^verbatim>\<open>\b\<close> and the
  matching of the regular expression are written out in full. The Unicode case tables
  are the host's: the part the development computes with is written out (the code units
  below 256, and U+0130 and U+212A, whose lower-case forms are \<open>i\<close> followed by U+0307,
  and \<open>k\<close>), the rest is a parameter: \<open>hostLower\<close> is \<^verbatim>\<open>toLowerCase\<close> on a string that
  holds another code unit, \<open>hostUpper\<close> the upper-case form of one code unit from 128 on.
\<close>

record host =
  hostLower :: "nat list \<Rightarrow> nat list"
  hostUpper :: "nat \<Rightarrow> nat list"

text \<open>A string of code units below 256 as a list of code units.\<close>

definition unitsOf :: "string \<Rightarrow> nat list" where
  "unitsOf s = map of_char s"

text \<open>
  WhiteSpace and LineTerminator: TAB, LF, VT, FF, CR, SPACE, NO-BREAK SPACE, U+1680,
  U+2000 to U+200A, U+2028, U+2029, U+202F, U+205F, U+3000 and U+FEFF.
\<close>

definition isWhiteSpaceUnit :: "nat \<Rightarrow> bool" where
  "isWhiteSpaceUnit u =
     (u \<in> set [0x09, 0x0A, 0x0B, 0x0C, 0x0D, 0x20, 0xA0, 0x1680, 0x2028, 0x2029, 0x202F,
               0x205F, 0x3000, 0xFEFF] \<or>
      (0x2000 \<le> u \<and> u \<le> 0x200A))"

definition trimUnits :: "nat list \<Rightarrow> nat list" where
  "trimUnits s = rev (dropWhile isWhiteSpaceUnit (rev (dropWhile isWhiteSpaceUnit s)))"

text \<open>
  \<^verbatim>\<open>toLowerCase\<close> has no locale, and none of the written-out code units has a
  context-dependent mapping, so on a string of such units it works unit by unit.
\<close>

definition writtenOut :: "nat \<Rightarrow> bool" where
  "writtenOut u = (u < 256 \<or> u = 0x130 \<or> u = 0x212A)"

definition lowerUnit :: "nat \<Rightarrow> nat list" where
  "lowerUnit u =
     (if (65 \<le> u \<and> u \<le> 90) \<or> (192 \<le> u \<and> u \<le> 222 \<and> u \<noteq> 215) then [u + 32]
      else if u = 0x130 then [0x69, 0x307]
      else if u = 0x212A then [0x6B]
      else [u])"

definition toLowerCaseUnits :: "host \<Rightarrow> nat list \<Rightarrow> nat list" where
  "toLowerCaseUnits h s =
     (if list_all writtenOut s then concat (map lowerUnit s) else hostLower h s)"

definition startsWithUnits :: "nat list \<Rightarrow> nat list \<Rightarrow> bool" where
  "startsWithUnits s p = (take (length p) s = p)"

definition isWordUnit :: "nat \<Rightarrow> bool" where
  "isWordUnit u = ((48 \<le> u \<and> u \<le> 57) \<or> (65 \<le> u \<and> u \<le> 90) \<or> u = 95 \<or> (97 \<le> u \<and> u \<le> 122))"

text \<open>
  Canonicalize of a regular expression with the flag \<open>i\<close> and without \<open>u\<close>: the
  upper-case form of the code unit, unless that form is not one code unit, or the code
  unit is 128 or more and its upper-case form is below 128.
\<close>

definition toUpperCaseUnit :: "host \<Rightarrow> nat \<Rightarrow> nat list" where
  "toUpperCaseUnit h u =
     (if u < 128 then (if 97 \<le> u \<and> u \<le> 122 then [u - 32] else [u]) else hostUpper h u)"

definition canonicalizeUnit :: "host \<Rightarrow> nat \<Rightarrow> nat" where
  "canonicalizeUnit h ch =
     (case toUpperCaseUnit h ch of
        [cu] \<Rightarrow> if 128 \<le> ch \<and> cu < 128 then ch else cu
      | _ \<Rightarrow> ch)"

definition isWordBoundaryUnits :: "nat list \<Rightarrow> nat \<Rightarrow> bool" where
  "isWordBoundaryUnits s e =
     ((0 < e \<and> isWordUnit (s ! (e - 1))) \<noteq> (e < length s \<and> isWordUnit (s ! e)))"

definition matchesAtUnits :: "host \<Rightarrow> nat list \<Rightarrow> nat list \<Rightarrow> nat \<Rightarrow> bool" where
  "matchesAtUnits h keyword s i =
     (isWordBoundaryUnits s i \<and>
      i + length keyword \<le> length s \<and>
      map (canonicalizeUnit h) (take (length keyword) (drop i s)) =
        map (canonicalizeUnit h) keyword \<and>
      isWordBoundaryUnits s (i + length keyword))"

definition regex_testUnits :: "host \<Rightarrow> nat list \<Rightarrow> nat list \<Rightarrow> bool" where
  "regex_testUnits h keyword s = list_ex (matchesAtUnits h keyword s) [0..<Suc (length s)]"

fun scanForbiddenUnits :: "host \<Rightarrow> string list \<Rightarrow> nat list \<Rightarrow> bool" where
  "scanForbiddenUnits h [] normalizedSql = True"
| "scanForbiddenUnits h (keyword # rest) normalizedSql =
     (if regex_testUnits h (unitsOf keyword) normalizedSql then False
      else scanForbiddenUnits h rest normalizedSql)"

definition isReadOnlyQueryUnits :: "host \<Rightarrow> nat list \<Rightarrow> bool" where
  "isReadOnlyQueryUnits h sql =
     (let normalizedSql = toLowerCaseUnits h (trimUnits sql)
      in if \<not> startsWithUnits normalizedSql (unitsOf ''select'') \<and>
            \<not> startsWithUnits normalizedSql (unitsOf ''with'') \<and>
            \<not> startsWithUnits normalizedSql (unitsOf ''explain'')
         then False
         else scanForbiddenUnits h forbiddenKeywords normalizedSql)"

section \<open>\<open>add_connection\<close> around its await\<close>



section \<open>Notions of the specification\<close>

text \<open>
  The specification's words for the guard: the permitted leading keywords, and a keyword
  occurring as a whole word, case-insensitively, anywhere in a string. A whole word is an
  occurrence with no word character of \<^verbatim>\<open>\b\<close> next to it on either side.
\<close>

definition leadingKeywords :: "string list" where
  "leadingKeywords = [''select'', ''with'', ''explain'']"

definition wholeWordOccurs :: "string \<Rightarrow> string \<Rightarrow> bool" where
  "wholeWordOccurs keyword s =
     (\<exists>pre w post. s = pre @ w @ post \<and> toLowerCase w = keyword \<and>
        (pre = [] \<or> \<not> isWordChar (last pre)) \<and> (post = [] \<or> \<not> isWordChar (hd post)))"

definition permittedBySpec :: "string \<Rightarrow> bool" where
  "permittedBySpec sql =
     ((\<exists>k \<in> set leadingKeywords. \<exists>rest. toLowerCase (trim sql) = k @ rest) \<and>
      (\<forall>k \<in> set forbiddenKeywords. \<not> wholeWordOccurs k sql))"

text \<open>The first word of a statement: its longest prefix of word characters.\<close>

definition leadingWord :: "string \<Rightarrow> string" where
  "leadingWord s = takeWhile isWordChar s"

text \<open>A keyword of the guard is a non-empty string of the letters a-z.\<close>

definition isLowerLetter :: "char \<Rightarrow> bool" where
  "isLowerLetter c = (97 \<le> (of_char c :: nat) \<and> (of_char c :: nat) \<le> 122)"

definition keywordShape :: "string \<Rightarrow> bool" where
  "keywordShape kw = (kw \<noteq> [] \<and> list_all isLowerLetter kw)"

text \<open>
  The specification's words for identifier escaping: the input wrapped in double quotes,
  every embedded double quote doubled. \<open>unescapeIdentifier\<close> reads such a text back: it
  removes the outer quotes and halves the doubled ones, and fails on a lone quote.
\<close>

definition quotedIdentifier :: "string \<Rightarrow> string" where
  "quotedIdentifier s =
     [dquote] @ concat (map (\<lambda>c. if c = dquote then [dquote, dquote] else [c]) s) @ [dquote]"

fun undouble :: "string \<Rightarrow> string option" where
  "undouble [] = Some []"
| "undouble [c] = (if c = dquote then None else Some [c])"
| "undouble (c # d # ds) =
     (if c = dquote
      then (if d = dquote then map_option ((#) dquote) (undouble ds) else None)
      else map_option ((#) c) (undouble (d # ds)))"

definition unescapeIdentifier :: "string \<Rightarrow> string option" where
  "unescapeIdentifier q =
     (case q of
        [] \<Rightarrow> None
      | c # r \<Rightarrow> if c = dquote \<and> r \<noteq> [] \<and> last r = dquote then undouble (butlast r) else None)"

text \<open>
  What enumeration can show of a registry: the names with their display fields. Two
  registries with the same view differ at most in what their pools hold.
\<close>

definition displayView :: "connections \<Rightarrow> (string \<times> connConfig) list" where
  "displayView conns = map (\<lambda>(name, info). (name, config info)) conns"

text \<open>The property names of an object literal and the elements of an array.\<close>

fun fieldNames :: "jsval \<Rightarrow> string list" where
  "fieldNames (JObject props) = map fst props"
| "fieldNames v = []"

fun elements :: "jsval \<Rightarrow> jsval list" where
  "elements (JArray xs) = xs"
| "elements v = []"

section \<open>Sample environments\<close>

text \<open>
  A driver for concrete runs: it answers a statement by a fixed table and ends a pool
  by another, and its world is the list of the calls of \<^verbatim>\<open>query\<close> it has received.
\<close>

type_synonym dbcall = "poolConfig \<times> string \<times> jsval list option"

definition scriptedDriver ::
  "(poolConfig \<Rightarrow> string \<Rightarrow> error + qresult) \<Rightarrow> (poolConfig \<Rightarrow> error option) \<Rightarrow> dbcall list driver"
where
  "scriptedDriver answer ending =
     \<lparr>pool_query = (\<lambda>db text params calls. (answer db text, calls @ [(db, text, params)])),
      pool_end = (\<lambda>db calls. (ending db, calls))\<rparr>"

definition samplePool :: "string \<Rightarrow> string \<Rightarrow> poolConfig" where
  "samplePool h pw =
     \<lparr>host = h, port = 5432, database = ''app'', user = ''reader'', password = pw,
      max_clients = 5, idleTimeoutMillis = 30000, connectionTimeoutMillis = 5000\<rparr>"

definition sampleConnection :: "string \<Rightarrow> string \<Rightarrow> connection" where
  "sampleConnection h pw =
     \<lparr>pool = samplePool h pw,
      config = \<lparr>host = h, port = 5432, database = ''app'', user = ''reader''\<rparr>\<rparr>"

definition oneRow :: qresult where
  "oneRow = \<lparr>rowCount = JNumber (Num 1), rows = [[(''?column?'', JNumber (Num 1))]]\<rparr>"

text \<open>
  The statements a run of \<open>handleQuery\<close> sends to the database: the texts of the calls
  the scripted driver has recorded, starting from no call.
\<close>

definition statementsSent ::
  "connections \<Rightarrow> string \<Rightarrow> string \<Rightarrow> jsval list option \<Rightarrow> int option \<Rightarrow> string list"
where
  "statementsSent conns connection sql params_arg limit_arg =
     map (\<lambda>(db, text, params). text)
       (snd (handleQuery (scriptedDriver (\<lambda>db text. Inr oneRow) (\<lambda>db. None))
               conns connection sql params_arg limit_arg []))"

text \<open>The number a string of decimal digits denotes.\<close>

definition valueOfDigits :: "string \<Rightarrow> nat" where
  "valueOfDigits s = foldl (\<lambda>acc c. 10 * acc + (of_char c - 48)) 0 s"

text \<open>
  The statement the loop of \<open>compare_row_counts\<close> builds for a table name, and a sample
  \<^verbatim>\<open>parseInt\<close> for concrete runs (decimal digits only).
\<close>

definition countQueryFor :: "string \<Rightarrow> string \<Rightarrow> string" where
  "countQueryFor schema table =
     ''SELECT COUNT(*) as count FROM '' @ escapeIdentifier schema @ ''.'' @ escapeIdentifier table"





text \<open>
  A platform for concrete runs, in the POSIX style. \<open>posixExtname\<close> follows
  \<^verbatim>\<open>path.posix.extname\<close>: of the last path segment (trailing slashes put aside) it
  returns the text from the last dot on, and the empty text when the segment has no dot,
  starts with its only dot, or is \<open>..\<close>. \<open>sampleResolve\<close> puts a relative path under the
  working directory \<open>/work\<close>; the runs below use paths without \<open>.\<close> and \<open>..\<close> segments.
  The world of the sample platform is the list of the paths the parser was given.
\<close>

definition posixExtname :: "string \<Rightarrow> string" where
  "posixExtname p =
     (let trimmed = rev (dropWhile (\<lambda>c. c = CHR ''/'') (rev p));
          seg = rev (takeWhile (\<lambda>c. c \<noteq> CHR ''/'') (rev trimmed));
          tail = rev (takeWhile (\<lambda>c. c \<noteq> CHR ''.'') (rev seg))
      in if CHR ''.'' \<notin> set seg then []
         else if length tail + 1 = length seg then []
         else if seg = ''..'' then []
         else CHR ''.'' # tail)"

definition sampleResolve :: "string \<Rightarrow> string" where
  "sampleResolve p = (if p \<noteq> [] \<and> hd p = CHR ''/'' then p else ''/work/'' @ p)"

definition samplePlatform :: "string list \<Rightarrow> string list platform" where
  "samplePlatform files =
     \<lparr>path_resolve = sampleResolve,
      path_extname = posixExtname,
      fs_existsSync = (\<lambda>p calls. p \<in> set files),
      xlsx_readFile = (\<lambda>p calls.
         (Inr \<lparr>SheetNames = [''Sheet1''],
               Sheets = [(''Sheet1'', JObject [(''!ref'', JString ''A1:A1''),
                                              (''A1'', JObject [(''v'', JNumber (Num 7))])])]\<rparr>,
          calls @ [p])),
      sheet_to_json = (\<lambda>sheet header. Inr (JArray [])),
      decode_range = (\<lambda>r. Inr \<lparr>start_row = 0, start_col = 0, end_row = 0, end_col = 0\<rparr>),
      encode_cell = (\<lambda>r c. ''A1'')\<rparr>"

text \<open>The four tools of the spreadsheet server, as functions of platform, path and world.\<close>

definition spreadsheetTools ::
  "string option \<Rightarrow> bool \<Rightarrow> string \<Rightarrow> ('w platform \<Rightarrow> string \<Rightarrow> 'w \<Rightarrow> toolResult \<times> 'w) list"
where
  "spreadsheetTools sheetName useHeader rangeText =
     [\<lambda>env filePath w. read_spreadsheet env filePath sheetName useHeader w,
      \<lambda>env filePath w. list_sheets env filePath w,
      \<lambda>env filePath w. get_cell_range env filePath sheetName rangeText w,
      \<lambda>env filePath w. get_sheet_info env filePath sheetName w]"

section \<open>Notions and samples for code units and passwords\<close>

text \<open>
  A keyword occurring as a whole word of a list of code units, the letters A-Z and a-z
  compared without regard to case.
\<close>

definition asciiLowerUnit :: "nat \<Rightarrow> nat" where
  "asciiLowerUnit u = (if 65 \<le> u \<and> u \<le> 90 then u + 32 else u)"

definition wholeWordOccursUnits :: "nat list \<Rightarrow> nat list \<Rightarrow> bool" where
  "wholeWordOccursUnits keyword s =
     (\<exists>pre w post. s = pre @ w @ post \<and> map asciiLowerUnit w = keyword \<and>
        (pre = [] \<or> \<not> isWordUnit (last pre)) \<and> (post = [] \<or> \<not> isWordUnit (hd post)))"

text \<open>
  The guard's two conditions, both read on the trimmed, lower-cased text.
\<close>

definition permittedByNormalisedText :: "host \<Rightarrow> nat list \<Rightarrow> bool" where
  "permittedByNormalisedText h sql =
     ((\<exists>k \<in> set leadingKeywords. \<exists>rest. toLowerCaseUnits h (trimUnits sql) = unitsOf k @ rest) \<and>
      (\<forall>k \<in> set forbiddenKeywords.
         \<not> wholeWordOccursUnits (unitsOf k) (toLowerCaseUnits h (trimUnits sql))))"

text \<open>
  A host whose tables map nothing, for evaluating the guard on a text of written-out code
  units: there the answer of the guard is the same for every host.
\<close>

definition plainHost :: host where
  "plainHost = \<lparr>hostLower = (\<lambda>s. s), hostUpper = (\<lambda>u. [u])\<rparr>"

text \<open>The text \<open>select Kcall\<close>, its K being the Kelvin sign U+212A.\<close>

definition kelvinCall :: "nat list" where
  "kelvinCall = unitsOf ''select '' @ [0x212A] @ unitsOf ''call''"

text \<open>The text \<open>select call\<close> followed by the dotted capital I, U+0130.\<close>

definition dottedCall :: "nat list" where
  "dottedCall = unitsOf ''select call'' @ [0x130]"

text \<open>
  A database that accepts one password: the probe of a pool made with another password
  fails.
\<close>

definition passwordCheckingDriver :: "string \<Rightarrow> dbcall list driver" where
  "passwordCheckingDriver accepted =
     scriptedDriver
       (\<lambda>db text. if password db = accepted then Inr oneRow
                  else Inl (DriverError ''password authentication failed''))
       (\<lambda>db. None)"

section \<open>The guard meets its specification\<close>

subsection \<open>Characters\<close>

lemma of_char_lt_256: "(of_char c :: nat) < 256"
  by (metis of_char_mod_256 mod_less_divisor zero_less_numeral)

lemma isWordChar_toLowerChar: "isWordChar (toLowerChar c) = isWordChar c"
  using of_char_lt_256 [of c]
  by (auto simp add: isWordChar_def toLowerChar_def Let_def)

lemma toLowerChar_idem: "toLowerChar (toLowerChar c) = toLowerChar c"
  using of_char_lt_256 [of c]
  by (auto simp add: toLowerChar_def Let_def)

lemma isWhiteSpace_not_word: "isWhiteSpace c \<Longrightarrow> \<not> isWordChar c"
  by (auto simp add: isWhiteSpace_def isWordChar_def)

lemma isLowerLetter_word: "isLowerLetter c \<Longrightarrow> isWordChar c"
  by (auto simp add: isLowerLetter_def isWordChar_def)

lemma char_of_eq_nat: "n < 256 \<Longrightarrow> (char_of (n::nat) = c) = (n = of_char c)"
  by (simp add: char_of_eq_iff take_bit_eq_mod)

lemma toLowerChar_eq_letter:
  assumes "isLowerLetter k"
  shows "toLowerChar c = k \<longleftrightarrow>
         ((of_char c :: nat) = of_char k \<or> (of_char c :: nat) + 32 = of_char k)"
proof -
  have k: "97 \<le> (of_char k :: nat)" "(of_char k :: nat) \<le> 122"
    using assms by (auto simp add: isLowerLetter_def)
  have n: "(of_char c :: nat) < 256" by (rule of_char_lt_256)
  show ?thesis
  proof (cases "(65 \<le> (of_char c :: nat) \<and> (of_char c :: nat) \<le> 90) \<or>
                (192 \<le> (of_char c :: nat) \<and> (of_char c :: nat) \<le> 222 \<and> (of_char c :: nat) \<noteq> 215)")
    case True
    then have "toLowerChar c = char_of ((of_char c :: nat) + 32)"
      by (simp add: toLowerChar_def Let_def)
    moreover have "(of_char c :: nat) + 32 < 256" using True by auto
    ultimately have "toLowerChar c = k \<longleftrightarrow> (of_char c :: nat) + 32 = of_char k"
      by (simp add: char_of_eq_nat)
    moreover have "(of_char c :: nat) \<noteq> of_char k" using True k by auto
    ultimately show ?thesis by simp
  next
    case False
    then have "toLowerChar c = c"
      by (auto simp add: toLowerChar_def Let_def)
    moreover have "(of_char c :: nat) + 32 \<noteq> of_char k" using False k by auto
    ultimately show ?thesis by simp
  qed
qed

lemma canonicalize_letter:
  assumes "isLowerLetter k"
  shows "canonicalize c = canonicalize k \<longleftrightarrow>
         ((of_char c :: nat) = of_char k \<or> (of_char c :: nat) + 32 = of_char k)"
proof -
  have k: "97 \<le> (of_char k :: nat)" "(of_char k :: nat) \<le> 122"
    using assms by (auto simp add: isLowerLetter_def)
  then have ck: "canonicalize k = of_char k - 32"
    by (simp add: canonicalize_def)
  show ?thesis
    unfolding ck using k by (auto simp add: canonicalize_def Let_def simp del: of_char_eq_iff)
qed

lemma canonicalize_eq_letter:
  "isLowerLetter k \<Longrightarrow> canonicalize c = canonicalize k \<longleftrightarrow> toLowerChar c = k"
  by (simp add: canonicalize_letter toLowerChar_eq_letter)

subsection \<open>The regular expression as a whole-word occurrence\<close>

lemma isWordBoundary_append:
  "isWordBoundary (pre @ post) (length pre) =
     ((pre \<noteq> [] \<and> isWordChar (last pre)) \<noteq> (post \<noteq> [] \<and> isWordChar (hd post)))"
  by (cases pre rule: rev_cases; cases post) (auto simp add: isWordBoundary_def nth_append)

lemma map_canonicalize_eq:
  "list_all isLowerLetter kw \<Longrightarrow>
     (map canonicalize w = map canonicalize kw) = (toLowerCase w = kw)"
proof (induction kw arbitrary: w)
  case Nil
  then show ?case by (simp add: toLowerCase_def)
next
  case (Cons k kw)
  then show ?case
    by (cases w) (auto simp add: toLowerCase_def canonicalize_eq_letter)
qed

lemma toLowerCase_word_chars:
  assumes "list_all isLowerLetter kw" "toLowerCase w = kw"
  shows "list_all isWordChar w"
proof -
  have "\<forall>c \<in> set w. isWordChar c"
  proof
    fix c assume "c \<in> set w"
    then have "toLowerChar c \<in> set kw"
      using assms(2) by (auto simp add: toLowerCase_def)
    then have "isWordChar (toLowerChar c)"
      using assms(1) by (auto simp add: list_all_iff isLowerLetter_word)
    then show "isWordChar c" by (simp add: isWordChar_toLowerChar)
  qed
  then show ?thesis by (simp add: list_all_iff)
qed

lemma matchesAt_decomp:
  assumes "keywordShape kw" "length w = length kw"
  shows "matchesAt kw (pre @ w @ post) (length pre) =
           (toLowerCase w = kw \<and> (pre = [] \<or> \<not> isWordChar (last pre)) \<and>
            (post = [] \<or> \<not> isWordChar (hd post)))"
proof (cases "toLowerCase w = kw")
  case False
  then show ?thesis
    using assms by (simp add: matchesAt_def keywordShape_def map_canonicalize_eq)
next
  case True
  have shape: "kw \<noteq> []" "list_all isLowerLetter kw"
    using assms(1) by (auto simp add: keywordShape_def)
  have w: "w \<noteq> []" using shape assms(2) by auto
  have wc: "list_all isWordChar w"
    using toLowerCase_word_chars [OF shape(2) True] .
  have hd_w: "isWordChar (hd w)" using w wc by (cases w) auto
  have last_w: "isWordChar (last w)" using w wc by (cases w rule: rev_cases) auto
  have b1: "isWordBoundary (pre @ w @ post) (length pre) = (pre = [] \<or> \<not> isWordChar (last pre))"
    using isWordBoundary_append [of pre "w @ post"] w hd_w by auto
  have b2: "isWordBoundary (pre @ w @ post) (length pre + length kw) =
              (post = [] \<or> \<not> isWordChar (hd post))"
    using isWordBoundary_append [of "pre @ w" post] w last_w assms(2) by auto
  show ?thesis
    using True b1 b2 assms(2) shape
    by (simp add: matchesAt_def map_canonicalize_eq)
qed

lemma regex_test_index: "regex_test kw s = (\<exists>i\<le>length s. matchesAt kw s i)"
  unfolding regex_test_def list_ex_iff set_upt by (auto simp add: less_Suc_eq_le)

lemma regex_test_iff:
  assumes "keywordShape kw"
  shows "regex_test kw s = wholeWordOccurs kw s"
proof
  assume "regex_test kw s"
  then obtain i where i: "i \<le> length s" "matchesAt kw s i"
    by (auto simp add: regex_test_index)
  define pre where "pre = take i s"
  define w where "w = take (length kw) (drop i s)"
  define post where "post = drop (i + length kw) s"
  have len: "i + length kw \<le> length s" using i(2) by (simp add: matchesAt_def)
  have s: "s = pre @ w @ post"
    unfolding pre_def w_def post_def
    by (metis add.commute append_take_drop_id drop_drop)
  have lp: "length pre = i" using i(1) by (simp add: pre_def)
  have lw: "length w = length kw" using len by (simp add: w_def)
  have "matchesAt kw (pre @ w @ post) (length pre)" using i(2) s lp by simp
  then have "toLowerCase w = kw \<and> (pre = [] \<or> \<not> isWordChar (last pre)) \<and>
            (post = [] \<or> \<not> isWordChar (hd post))"
    using matchesAt_decomp [OF assms lw] by simp
  then show "wholeWordOccurs kw s"
    unfolding wholeWordOccurs_def using s by blast
next
  assume "wholeWordOccurs kw s"
  then obtain pre w post where d: "s = pre @ w @ post" "toLowerCase w = kw"
      "pre = [] \<or> \<not> isWordChar (last pre)" "post = [] \<or> \<not> isWordChar (hd post)"
    unfolding wholeWordOccurs_def by blast
  have lw: "length w = length kw" using d(2) by (auto simp add: toLowerCase_def)
  have "matchesAt kw s (length pre)"
    using matchesAt_decomp [OF assms lw, of pre post] d by simp
  moreover have "length pre \<le> length s" using d(1) by simp
  ultimately show "regex_test kw s"
    by (auto simp add: regex_test_index)
qed

subsection \<open>Normalisation keeps whole-word occurrences\<close>

text \<open>
  Lower-casing maps word characters to word characters and changes no length; trimming
  removes whitespace only, which is never part of a keyword and never a word character.
  So the keyword scan, which the code runs on the normalised text, sees exactly the
  whole-word occurrences of the input.
\<close>

lemma wholeWordOccurs_toLowerCase:
  "wholeWordOccurs kw (toLowerCase s) = wholeWordOccurs kw s"
proof
  assume "wholeWordOccurs kw s"
  then obtain pre w post where d: "s = pre @ w @ post" "toLowerCase w = kw"
      "pre = [] \<or> \<not> isWordChar (last pre)" "post = [] \<or> \<not> isWordChar (hd post)"
    unfolding wholeWordOccurs_def by blast
  have "toLowerCase s = toLowerCase pre @ toLowerCase w @ toLowerCase post"
    using d(1) by (simp add: toLowerCase_def)
  moreover have "toLowerCase (toLowerCase w) = kw"
    using d(2) by (auto simp add: toLowerCase_def toLowerChar_idem)
  moreover have "toLowerCase pre = [] \<or> \<not> isWordChar (last (toLowerCase pre))"
    using d(3) by (auto simp add: toLowerCase_def last_map isWordChar_toLowerChar)
  moreover have "toLowerCase post = [] \<or> \<not> isWordChar (hd (toLowerCase post))"
    using d(4) by (auto simp add: toLowerCase_def hd_map isWordChar_toLowerChar)
  ultimately show "wholeWordOccurs kw (toLowerCase s)"
    unfolding wholeWordOccurs_def by blast
next
  assume "wholeWordOccurs kw (toLowerCase s)"
  then obtain pre' w' post' where d: "toLowerCase s = pre' @ w' @ post'" "toLowerCase w' = kw"
      "pre' = [] \<or> \<not> isWordChar (last pre')" "post' = [] \<or> \<not> isWordChar (hd post')"
    unfolding wholeWordOccurs_def by blast
  have m: "map toLowerChar s = pre' @ (w' @ post')"
    using d(1) by (simp add: toLowerCase_def)
  define pre where "pre = take (length pre') s"
  define r where "r = drop (length pre') s"
  have p: "s = pre @ r" "map toLowerChar pre = pre'" "map toLowerChar r = w' @ post'"
    using m by (simp_all add: pre_def r_def take_map [symmetric] drop_map [symmetric])
  define w where "w = take (length w') r"
  define post where "post = drop (length w') r"
  have q: "r = w @ post" "map toLowerChar w = w'" "map toLowerChar post = post'"
    using p(3) by (simp_all add: w_def post_def take_map [symmetric] drop_map [symmetric])
  have "s = pre @ w @ post" using p(1) q(1) by simp
  moreover have "toLowerCase w = kw"
    using d(2) q(2) by (auto simp add: toLowerCase_def toLowerChar_idem)
  moreover have "pre = [] \<or> \<not> isWordChar (last pre)"
    using d(3) p(2) by (auto simp add: last_map isWordChar_toLowerChar)
  moreover have "post = [] \<or> \<not> isWordChar (hd post)"
    using d(4) q(3) by (auto simp add: hd_map isWordChar_toLowerChar)
  ultimately show "wholeWordOccurs kw s"
    unfolding wholeWordOccurs_def by blast
qed

lemma occurrence_word:
  assumes "keywordShape kw" "toLowerCase w = kw"
  shows "w \<noteq> [] \<and> isWordChar (hd w) \<and> isWordChar (last w)"
proof -
  have shape: "kw \<noteq> []" "list_all isLowerLetter kw"
    using assms(1) by (auto simp add: keywordShape_def)
  have w: "w \<noteq> []" using shape(1) assms(2) by (auto simp add: toLowerCase_def)
  have wc: "list_all isWordChar w"
    using toLowerCase_word_chars [OF shape(2) assms(2)] .
  show ?thesis using w wc by (auto simp add: list_all_iff)
qed

lemma wholeWordOccurs_Cons:
  assumes "keywordShape kw" "isWhiteSpace c"
  shows "wholeWordOccurs kw (c # s) = wholeWordOccurs kw s"
proof
  assume "wholeWordOccurs kw s"
  then obtain pre w post where d: "s = pre @ w @ post" "toLowerCase w = kw"
      "pre = [] \<or> \<not> isWordChar (last pre)" "post = [] \<or> \<not> isWordChar (hd post)"
    unfolding wholeWordOccurs_def by blast
  have "c # s = (c # pre) @ w @ post" using d(1) by simp
  moreover have "c # pre = [] \<or> \<not> isWordChar (last (c # pre))"
    using d(3) isWhiteSpace_not_word [OF assms(2)] by auto
  ultimately show "wholeWordOccurs kw (c # s)"
    unfolding wholeWordOccurs_def using d(2) d(4) by blast
next
  assume "wholeWordOccurs kw (c # s)"
  then obtain pre w post where d: "c # s = pre @ w @ post" "toLowerCase w = kw"
      "pre = [] \<or> \<not> isWordChar (last pre)" "post = [] \<or> \<not> isWordChar (hd post)"
    unfolding wholeWordOccurs_def by blast
  have w: "w \<noteq> []" "isWordChar (hd w)"
    using occurrence_word [OF assms(1) d(2)] by auto
  have "pre \<noteq> []"
  proof
    assume "pre = []"
    then have "hd w = c" using d(1) w(1) by (cases w) auto
    then show False using w(2) isWhiteSpace_not_word [OF assms(2)] by simp
  qed
  then obtain pre' where pre: "pre = c # pre'" using d(1) by (cases pre) auto
  have "s = pre' @ w @ post" using d(1) pre by simp
  moreover have "pre' = [] \<or> \<not> isWordChar (last pre')"
    using d(3) pre by (cases pre') auto
  ultimately show "wholeWordOccurs kw s"
    unfolding wholeWordOccurs_def using d(2) d(4) by blast
qed

lemma wholeWordOccurs_snoc:
  assumes "keywordShape kw" "isWhiteSpace c"
  shows "wholeWordOccurs kw (s @ [c]) = wholeWordOccurs kw s"
proof
  assume "wholeWordOccurs kw s"
  then obtain pre w post where d: "s = pre @ w @ post" "toLowerCase w = kw"
      "pre = [] \<or> \<not> isWordChar (last pre)" "post = [] \<or> \<not> isWordChar (hd post)"
    unfolding wholeWordOccurs_def by blast
  have "s @ [c] = pre @ w @ (post @ [c])" using d(1) by simp
  moreover have "post @ [c] = [] \<or> \<not> isWordChar (hd (post @ [c]))"
    using d(4) isWhiteSpace_not_word [OF assms(2)] by (cases post) auto
  ultimately show "wholeWordOccurs kw (s @ [c])"
    unfolding wholeWordOccurs_def using d(2) d(3) by blast
next
  assume "wholeWordOccurs kw (s @ [c])"
  then obtain pre w post where d: "s @ [c] = pre @ w @ post" "toLowerCase w = kw"
      "pre = [] \<or> \<not> isWordChar (last pre)" "post = [] \<or> \<not> isWordChar (hd post)"
    unfolding wholeWordOccurs_def by blast
  have w: "w \<noteq> []" "isWordChar (last w)"
    using occurrence_word [OF assms(1) d(2)] by auto
  have "post \<noteq> []"
  proof
    assume "post = []"
    then have "last w = c" using d(1) w(1) by (metis append.assoc append_Nil2 last_appendR last_snoc)
    then show False using w(2) isWhiteSpace_not_word [OF assms(2)] by simp
  qed
  then obtain post' where post: "post = post' @ [c]"
    using d(1) by (cases post rule: rev_cases) auto
  have "s = pre @ w @ post'" using d(1) post by simp
  moreover have "post' = [] \<or> \<not> isWordChar (hd post')"
    using d(4) post by (cases post') auto
  ultimately show "wholeWordOccurs kw s"
    unfolding wholeWordOccurs_def using d(2) d(3) by blast
qed

lemma wholeWordOccurs_dropWhile:
  "keywordShape kw \<Longrightarrow>
     wholeWordOccurs kw (dropWhile isWhiteSpace s) = wholeWordOccurs kw s"
  by (induction s) (simp_all add: wholeWordOccurs_Cons)

lemma wholeWordOccurs_dropWhile_end:
  "keywordShape kw \<Longrightarrow>
     wholeWordOccurs kw (rev (dropWhile isWhiteSpace (rev s))) = wholeWordOccurs kw s"
  by (induction s rule: rev_induct) (simp_all add: wholeWordOccurs_snoc)

lemma wholeWordOccurs_trim:
  "keywordShape kw \<Longrightarrow> wholeWordOccurs kw (trim s) = wholeWordOccurs kw s"
  by (simp add: trim_def wholeWordOccurs_dropWhile_end wholeWordOccurs_dropWhile)

lemma scanForbidden_iff:
  "scanForbidden ks n = (\<forall>k \<in> set ks. \<not> regex_test k n)"
  by (induction ks) auto

lemma forbiddenKeywords_shape: "k \<in> set forbiddenKeywords \<Longrightarrow> keywordShape k"
  by (auto simp add: forbiddenKeywords_def keywordShape_def isLowerLetter_def)

lemma guard_scan_iff:
  "scanForbidden forbiddenKeywords (toLowerCase (trim sql)) =
     (\<forall>k \<in> set forbiddenKeywords. \<not> wholeWordOccurs k sql)"
  by (simp add: scanForbidden_iff regex_test_iff forbiddenKeywords_shape
      wholeWordOccurs_toLowerCase wholeWordOccurs_trim)

subsection \<open>The guard\<close>

lemma startsWith_iff: "startsWith s p = (\<exists>rest. s = p @ rest)"
  unfolding startsWith_def
  by (metis append_eq_conv_conj append_take_drop_id)

lemmas guard_eval =
  isReadOnlyQuery_def trim_def isWhiteSpace_def toLowerCase_def toLowerChar_def
  startsWith_def forbiddenKeywords_def regex_test_def matchesAt_def isWordBoundary_def
  isWordChar_def canonicalize_def Let_def char_of_eq_iff

lemma guard_permits_select_1: "isReadOnlyQuery ''SELECT 1''"
  by (simp add: guard_eval)

lemma guard_permits_padded_select: "isReadOnlyQuery ''  select * from t''"
  by (simp add: guard_eval)

lemma guard_rejects_drop: "\<not> isReadOnlyQuery ''DROP TABLE t''"
  by (simp add: guard_eval)

lemma guard_rejects_second_statement: "\<not> isReadOnlyQuery ''SELECT * FROM t; DELETE FROM t''"
  by (simp add: guard_eval)

lemma guard_rejects_literal: "\<not> isReadOnlyQuery ''SELECT 'update me' FROM t''"
  by (simp add: guard_eval)

lemma isReadOnlyQuery_permittedBySpec: "isReadOnlyQuery sql = permittedBySpec sql"
  unfolding isReadOnlyQuery_def permittedBySpec_def Let_def guard_scan_iff [symmetric]
  by (auto simp add: leadingKeywords_def startsWith_iff)

lemma guard_permits_withdrawal: "isReadOnlyQuery ''withdrawal of funds''"
  by (simp add: guard_eval)

lemma guard_permits_prefix:
  assumes "k \<in> set leadingKeywords" and "toLowerCase (trim sql) = k @ rest"
    and "\<forall>f \<in> set forbiddenKeywords. \<not> wholeWordOccurs f sql"
  shows "isReadOnlyQuery sql"
  unfolding isReadOnlyQuery_permittedBySpec permittedBySpec_def
  using assms by blast

lemma withdrawal_normalised:
  "toLowerCase (trim ''withdrawal of funds'') = ''with'' @ ''drawal of funds''"
  by (simp add: trim_def isWhiteSpace_def toLowerCase_def toLowerChar_def Let_def)

lemma withdrawal_no_forbidden_word:
  "\<forall>f \<in> set forbiddenKeywords. \<not> wholeWordOccurs f ''withdrawal of funds''"
  unfolding guard_scan_iff [symmetric] withdrawal_normalised
  by (simp add: forbiddenKeywords_def regex_test_def matchesAt_def isWordBoundary_def
      isWordChar_def canonicalize_def Let_def)

text \<open>
  C9. The leading-keyword check is a test on characters, with no word boundary after the
  keyword: a string whose trimmed, lower-cased form begins with the characters of a
  permitted keyword, whatever follows them, and which holds no denylisted whole word, is
  permitted. \<open>withdrawal of funds\<close> is such an input: the guard permits it, and its
  first word \<open>withdrawal\<close> is none of \<open>select\<close>, \<open>with\<close>, \<open>explain\<close>.
\<close>

theorem guard_prefix_has_no_word_boundary:
  "(\<forall>sql k rest.
      k \<in> set leadingKeywords \<longrightarrow>
      toLowerCase (trim sql) = k @ rest \<longrightarrow>
      (\<forall>f \<in> set forbiddenKeywords. \<not> wholeWordOccurs f sql) \<longrightarrow>
      isReadOnlyQuery sql) \<and>
   isReadOnlyQuery ''withdrawal of funds'' \<and>
   leadingWord (toLowerCase (trim ''withdrawal of funds'')) = ''withdrawal'' \<and>
   ''withdrawal'' \<notin> set leadingKeywords \<and>
   (\<exists>sql. isReadOnlyQuery sql \<and> leadingWord (toLowerCase (trim sql)) \<notin> set leadingKeywords)"
proof -
  have g: "\<forall>sql k rest.
      k \<in> set leadingKeywords \<longrightarrow>
      toLowerCase (trim sql) = k @ rest \<longrightarrow>
      (\<forall>f \<in> set forbiddenKeywords. \<not> wholeWordOccurs f sql) \<longrightarrow>
      isReadOnlyQuery sql"
    using guard_permits_prefix by blast
  have w: "leadingWord (toLowerCase (trim ''withdrawal of funds'')) = ''withdrawal''"
    by (simp add: leadingWord_def trim_def isWhiteSpace_def toLowerCase_def toLowerChar_def
        isWordChar_def Let_def)
  have n: "''withdrawal'' \<notin> set leadingKeywords"
    by (simp add: leadingKeywords_def)
  have e: "\<exists>sql. isReadOnlyQuery sql \<and> leadingWord (toLowerCase (trim sql)) \<notin> set leadingKeywords"
    by (rule exI [of _ "''withdrawal of funds''"]) (simp only: w guard_permits_withdrawal n simp_thms)
  show ?thesis
    by (intro conjI g guard_permits_withdrawal w n e)
qed

theorem guard_prefix_has_no_word_boundary_witness:
  "''with'' \<in> set leadingKeywords \<and>
   toLowerCase (trim ''withdrawal of funds'') = ''with'' @ ''drawal of funds'' \<and>
   isReadOnlyQuery ''withdrawal of funds''"
proof -
  have k: "''with'' \<in> set leadingKeywords" by (simp add: leadingKeywords_def)
  have "isReadOnlyQuery ''withdrawal of funds''"
    using guard_prefix_has_no_word_boundary [THEN conjunct1, THEN spec, THEN spec, THEN spec,
        THEN mp, THEN mp, THEN mp, OF k withdrawal_normalised withdrawal_no_forbidden_word] .
  then show ?thesis
    by (intro conjI k withdrawal_normalised)
qed

subsection \<open>Identifier escaping\<close>

lemma replaceQuotes_concat:
  "replaceQuotes s = concat (map (\<lambda>c. if c = dquote then [dquote, dquote] else [c]) s)"
  by (induction s) simp_all

lemma undouble_replaceQuotes: "undouble (replaceQuotes s) = Some s"
proof (induction s)
  case Nil
  show ?case by simp
next
  case (Cons c s)
  show ?case
  proof (cases "c = dquote")
    case True
    then show ?thesis using Cons.IH by simp
  next
    case False
    then show ?thesis using Cons.IH by (cases "replaceQuotes s") auto
  qed
qed

lemma unescape_escape: "unescapeIdentifier (escapeIdentifier s) = Some s"
  by (simp add: unescapeIdentifier_def escapeIdentifier_def undouble_replaceQuotes)

text \<open>
  C6. For every string, \<open>escapeIdentifier\<close> returns it between two double quotes with
  every embedded double quote doubled and nothing else changed: reading the result back
  gives the input, and the characters other than the double quote are the input's, in
  order. The input \<open>the"table\<close> becomes \<open>"the""table"\<close>.
\<close>

theorem escapeIdentifier_quotes_and_doubles:
  "escapeIdentifier s = quotedIdentifier s \<and>
   unescapeIdentifier (escapeIdentifier s) = Some s \<and>
   filter (\<lambda>c. c \<noteq> dquote) (escapeIdentifier s) = filter (\<lambda>c. c \<noteq> dquote) s \<and>
   escapeIdentifier (''the'' @ [dquote] @ ''table'') =
     [dquote] @ ''the'' @ [dquote, dquote] @ ''table'' @ [dquote]"
proof -
  have a: "escapeIdentifier s = quotedIdentifier s"
    by (simp add: escapeIdentifier_def quotedIdentifier_def replaceQuotes_concat)
  have f: "filter (\<lambda>c. c \<noteq> dquote) (replaceQuotes s) = filter (\<lambda>c. c \<noteq> dquote) s"
    by (induction s) simp_all
  have c: "filter (\<lambda>c. c \<noteq> dquote) (escapeIdentifier s) = filter (\<lambda>c. c \<noteq> dquote) s"
    by (simp add: escapeIdentifier_def f)
  have e: "escapeIdentifier (''the'' @ [dquote] @ ''table'') =
     [dquote] @ ''the'' @ [dquote, dquote] @ ''table'' @ [dquote]"
    by (simp add: escapeIdentifier_def dquote_def)
  show ?thesis by (intro conjI a unescape_escape c e)
qed

section \<open>The guard on code units\<close>

subsection \<open>The regular expression as a whole-word occurrence\<close>

lemma length_unitsOf: "length (unitsOf s) = length s"
  by (simp add: unitsOf_def)

lemma of_char_not_ge: "256 \<le> n \<Longrightarrow> (n \<le> (of_char c :: nat)) = False"
  by (metis of_char_lt_256 not_le le_trans)

lemma of_char_above: "256 \<le> n \<Longrightarrow> ((of_char c :: nat) = n) = False"
  by (metis of_char_not_ge order_refl)

lemma canonicalizeUnit_high: "128 \<le> u \<Longrightarrow> 128 \<le> canonicalizeUnit h u"
  by (auto simp add: canonicalizeUnit_def toUpperCaseUnit_def split: list.splits)

lemma canonicalizeUnit_low:
  "u < 128 \<Longrightarrow> canonicalizeUnit h u = (if 97 \<le> u \<and> u \<le> 122 then u - 32 else u)"
  by (simp add: canonicalizeUnit_def toUpperCaseUnit_def)

lemma canonicalizeUnit_letter:
  assumes "97 \<le> k" and "k \<le> 122"
  shows "(canonicalizeUnit h u = canonicalizeUnit h k) = (asciiLowerUnit u = k)"
proof (cases "u < 128")
  case True
  then show ?thesis
    using assms by (auto simp add: canonicalizeUnit_low asciiLowerUnit_def)
next
  case False
  then have "128 \<le> canonicalizeUnit h u" by (simp add: canonicalizeUnit_high)
  moreover have "canonicalizeUnit h k = k - 32"
    using assms by (simp add: canonicalizeUnit_low)
  ultimately show ?thesis
    using False assms by (auto simp add: asciiLowerUnit_def)
qed

lemma isLowerLetter_unit: "isLowerLetter k \<Longrightarrow> 97 \<le> (of_char k :: nat) \<and> (of_char k :: nat) \<le> 122"
  by (simp add: isLowerLetter_def)

lemma isWordUnit_asciiLowerUnit: "isWordUnit (asciiLowerUnit u) = isWordUnit u"
  by (auto simp add: isWordUnit_def asciiLowerUnit_def)

lemma isWordBoundaryUnits_append:
  "isWordBoundaryUnits (pre @ post) (length pre) =
     ((pre \<noteq> [] \<and> isWordUnit (last pre)) \<noteq> (post \<noteq> [] \<and> isWordUnit (hd post)))"
  by (cases pre rule: rev_cases; cases post) (auto simp add: isWordBoundaryUnits_def nth_append)

lemma map_canonicalizeUnit_eq:
  "list_all isLowerLetter kw \<Longrightarrow>
     (map (canonicalizeUnit h) w = map (canonicalizeUnit h) (unitsOf kw)) =
     (map asciiLowerUnit w = unitsOf kw)"
proof (induction kw arbitrary: w)
  case Nil
  then show ?case by (simp add: unitsOf_def)
next
  case (Cons k kw)
  then show ?case
    by (cases w) (auto simp add: unitsOf_def canonicalizeUnit_letter isLowerLetter_unit)
qed

lemma asciiLower_word_units:
  assumes "list_all isLowerLetter kw" "map asciiLowerUnit w = unitsOf kw"
  shows "list_all isWordUnit w"
proof -
  have "\<forall>u \<in> set w. isWordUnit u"
  proof
    fix u assume "u \<in> set w"
    then have "asciiLowerUnit u \<in> set (unitsOf kw)"
      using assms(2) by (metis image_eqI set_map)
    then obtain k where k: "k \<in> set kw" "asciiLowerUnit u = of_char k"
      by (auto simp add: unitsOf_def)
    then have "isLowerLetter k" using assms(1) by (simp add: list_all_iff)
    then have "isWordUnit (asciiLowerUnit u)"
      using k(2) by (auto simp add: isLowerLetter_def isWordUnit_def)
    then show "isWordUnit u" by (simp add: isWordUnit_asciiLowerUnit)
  qed
  then show ?thesis by (simp add: list_all_iff)
qed

lemma matchesAtUnits_decomp:
  assumes "keywordShape kw" "length w = length kw"
  shows "matchesAtUnits h (unitsOf kw) (pre @ w @ post) (length pre) =
           (map asciiLowerUnit w = unitsOf kw \<and> (pre = [] \<or> \<not> isWordUnit (last pre)) \<and>
            (post = [] \<or> \<not> isWordUnit (hd post)))"
proof (cases "map asciiLowerUnit w = unitsOf kw")
  case False
  then show ?thesis
    using assms
    by (simp add: matchesAtUnits_def keywordShape_def map_canonicalizeUnit_eq length_unitsOf)
next
  case True
  have shape: "kw \<noteq> []" "list_all isLowerLetter kw"
    using assms(1) by (auto simp add: keywordShape_def)
  have w: "w \<noteq> []" using shape assms(2) by auto
  have wc: "list_all isWordUnit w"
    using asciiLower_word_units [OF shape(2) True] .
  have hd_w: "isWordUnit (hd w)" using w wc by (cases w) auto
  have last_w: "isWordUnit (last w)" using w wc by (cases w rule: rev_cases) auto
  have b1: "isWordBoundaryUnits (pre @ w @ post) (length pre) =
              (pre = [] \<or> \<not> isWordUnit (last pre))"
    using isWordBoundaryUnits_append [of pre "w @ post"] w hd_w by auto
  have b2: "isWordBoundaryUnits (pre @ w @ post) (length pre + length kw) =
              (post = [] \<or> \<not> isWordUnit (hd post))"
    using isWordBoundaryUnits_append [of "pre @ w" post] w last_w assms(2) by auto
  have c: "map (canonicalizeUnit h) w = map (canonicalizeUnit h) (unitsOf kw)"
    using True shape(2) by (simp add: map_canonicalizeUnit_eq)
  show ?thesis
    using True b1 b2 c assms(2)
    by (simp add: matchesAtUnits_def length_unitsOf)
qed

lemma regex_testUnits_index:
  "regex_testUnits h kw s = (\<exists>i\<le>length s. matchesAtUnits h kw s i)"
  unfolding regex_testUnits_def list_ex_iff set_upt by (auto simp add: less_Suc_eq_le)

lemma regex_testUnits_iff:
  assumes "keywordShape kw"
  shows "regex_testUnits h (unitsOf kw) s = wholeWordOccursUnits (unitsOf kw) s"
proof
  assume "regex_testUnits h (unitsOf kw) s"
  then obtain i where i: "i \<le> length s" "matchesAtUnits h (unitsOf kw) s i"
    by (auto simp add: regex_testUnits_index)
  define pre where "pre = take i s"
  define w where "w = take (length kw) (drop i s)"
  define post where "post = drop (i + length kw) s"
  have len: "i + length kw \<le> length s"
    using i(2) by (simp add: matchesAtUnits_def unitsOf_def)
  have s: "s = pre @ w @ post"
    unfolding pre_def w_def post_def
    by (metis add.commute append_take_drop_id drop_drop)
  have lp: "length pre = i" using i(1) by (simp add: pre_def)
  have lw: "length w = length kw" using len by (simp add: w_def)
  have "matchesAtUnits h (unitsOf kw) (pre @ w @ post) (length pre)" using i(2) s lp by simp
  then have "map asciiLowerUnit w = unitsOf kw \<and> (pre = [] \<or> \<not> isWordUnit (last pre)) \<and>
            (post = [] \<or> \<not> isWordUnit (hd post))"
    using matchesAtUnits_decomp [OF assms lw] by simp
  then show "wholeWordOccursUnits (unitsOf kw) s"
    unfolding wholeWordOccursUnits_def using s by blast
next
  assume "wholeWordOccursUnits (unitsOf kw) s"
  then obtain pre w post where d: "s = pre @ w @ post" "map asciiLowerUnit w = unitsOf kw"
      "pre = [] \<or> \<not> isWordUnit (last pre)" "post = [] \<or> \<not> isWordUnit (hd post)"
    unfolding wholeWordOccursUnits_def by blast
  have "length (map asciiLowerUnit w) = length (unitsOf kw)" using d(2) by simp
  then have lw: "length w = length kw" by (simp add: unitsOf_def)
  have "matchesAtUnits h (unitsOf kw) s (length pre)"
    using matchesAtUnits_decomp [OF assms lw, of h pre post] d by simp
  moreover have "length pre \<le> length s" using d(1) by simp
  ultimately show "regex_testUnits h (unitsOf kw) s"
    by (auto simp add: regex_testUnits_index)
qed

lemma scanForbiddenUnits_iff:
  "scanForbiddenUnits h ks n = (\<forall>k \<in> set ks. \<not> regex_testUnits h (unitsOf k) n)"
  by (induction ks) auto

lemma startsWithUnits_iff: "startsWithUnits s p = (\<exists>rest. s = p @ rest)"
  unfolding startsWithUnits_def
  by (metis append_eq_conv_conj append_take_drop_id)

lemma isReadOnlyQueryUnits_normalised:
  "isReadOnlyQueryUnits h sql = permittedByNormalisedText h sql"
  unfolding isReadOnlyQueryUnits_def permittedByNormalisedText_def Let_def
  by (auto simp add: scanForbiddenUnits_iff regex_testUnits_iff forbiddenKeywords_shape
      leadingKeywords_def startsWithUnits_iff)

subsection \<open>Strings of code units below 256\<close>

lemma inj_unitsOf: "(unitsOf s = unitsOf t) = (s = t)"
  unfolding unitsOf_def by (simp add: inj_map_eq_map inj_of_char)

lemma isWhiteSpaceUnit_of_char: "isWhiteSpaceUnit (of_char c) = isWhiteSpace c"
proof -
  have eq: "\<And>d. (c = d) = ((of_char c :: nat) = of_char d)" by simp
  show ?thesis
    unfolding isWhiteSpace_def isWhiteSpaceUnit_def
    by (auto simp add: eq of_char_above of_char_not_ge simp del: of_char_eq_iff)
qed

lemma trimUnits_unitsOf: "trimUnits (unitsOf s) = unitsOf (trim s)"
proof -
  have c: "isWhiteSpaceUnit \<circ> of_char = isWhiteSpace"
    by (rule ext) (simp add: isWhiteSpaceUnit_of_char)
  show ?thesis
    by (simp add: trimUnits_def trim_def unitsOf_def dropWhile_map rev_map c)
qed

lemma lowerUnit_of_char: "lowerUnit (of_char c) = [of_char (toLowerChar c)]"
  by (auto simp add: lowerUnit_def toLowerChar_def Let_def of_char_above)

lemma toLowerCaseUnits_unitsOf: "toLowerCaseUnits h (unitsOf s) = unitsOf (toLowerCase s)"
proof -
  have w: "list_all writtenOut (unitsOf s)"
    by (simp add: list_all_iff unitsOf_def writtenOut_def of_char_lt_256)
  have "concat (map lowerUnit (unitsOf s)) = unitsOf (toLowerCase s)"
    by (induction s) (simp_all add: unitsOf_def toLowerCase_def lowerUnit_of_char)
  then show ?thesis using w by (simp add: toLowerCaseUnits_def)
qed

lemma startsWithUnits_unitsOf: "startsWithUnits (unitsOf s) (unitsOf p) = startsWith s p"
proof -
  have "take (length p) (unitsOf s) = unitsOf (take (length p) s)"
    by (simp add: unitsOf_def take_map)
  then show ?thesis
    by (simp add: startsWithUnits_def startsWith_def unitsOf_def inj_unitsOf [unfolded unitsOf_def])
qed

lemma isWordUnit_of_char: "isWordUnit (of_char c) = isWordChar c"
  by (simp add: isWordUnit_def isWordChar_def Let_def)

lemma isWordBoundaryUnits_unitsOf:
  "e \<le> length t \<Longrightarrow> isWordBoundaryUnits (unitsOf t) e = isWordBoundary t e"
  by (auto simp add: isWordBoundaryUnits_def isWordBoundary_def unitsOf_def isWordUnit_of_char)

lemma asciiLowerUnit_letter:
  assumes "isLowerLetter k"
  shows "(asciiLowerUnit (of_char c) = of_char k) = (toLowerChar c = k)"
  unfolding toLowerChar_eq_letter [OF assms]
  using assms
  by (auto simp add: asciiLowerUnit_def isLowerLetter_def simp del: of_char_eq_iff)

lemma map_asciiLowerUnit_unitsOf:
  "list_all isLowerLetter kw \<Longrightarrow>
     (map asciiLowerUnit (unitsOf w) = unitsOf kw) = (toLowerCase w = kw)"
proof (induction kw arbitrary: w)
  case Nil
  then show ?case by (simp add: unitsOf_def toLowerCase_def)
next
  case (Cons k kw)
  then show ?case
    by (cases w) (auto simp add: unitsOf_def toLowerCase_def asciiLowerUnit_letter)
qed

lemma matchesAtUnits_unitsOf:
  assumes "list_all isLowerLetter kw" and "i \<le> length t"
  shows "matchesAtUnits h (unitsOf kw) (unitsOf t) i = matchesAt kw t i"
proof (cases "i + length kw \<le> length t")
  case False
  then show ?thesis by (simp add: matchesAtUnits_def matchesAt_def unitsOf_def)
next
  case True
  have b1: "isWordBoundaryUnits (unitsOf t) i = isWordBoundary t i"
    using assms(2) by (rule isWordBoundaryUnits_unitsOf)
  have b2: "isWordBoundaryUnits (unitsOf t) (i + length kw) = isWordBoundary t (i + length kw)"
    using True by (rule isWordBoundaryUnits_unitsOf)
  have "take (length kw) (drop i (unitsOf t)) = unitsOf (take (length kw) (drop i t))"
    by (simp add: unitsOf_def take_map drop_map)
  then have c: "(map (canonicalizeUnit h) (take (length kw) (drop i (unitsOf t))) =
               map (canonicalizeUnit h) (unitsOf kw)) =
             (map canonicalize (take (length kw) (drop i t)) = map canonicalize kw)"
    using assms(1)
    by (simp add: map_canonicalizeUnit_eq map_asciiLowerUnit_unitsOf map_canonicalize_eq)
  have l: "length (unitsOf kw) = length kw" "length (unitsOf t) = length t"
    by (simp_all add: unitsOf_def)
  show ?thesis
    unfolding matchesAtUnits_def matchesAt_def l b1 b2 c by simp
qed

lemma regex_testUnits_unitsOf:
  assumes "list_all isLowerLetter kw"
  shows "regex_testUnits h (unitsOf kw) (unitsOf t) = regex_test kw t"
proof -
  have l: "length (unitsOf t) = length t" by (simp add: unitsOf_def)
  show ?thesis
    unfolding regex_testUnits_index regex_test_index l
    using matchesAtUnits_unitsOf [OF assms] by blast
qed

lemma scanForbiddenUnits_unitsOf:
  "list_all (list_all isLowerLetter) ks \<Longrightarrow>
     scanForbiddenUnits h ks (unitsOf t) = scanForbidden ks t"
  by (induction ks) (simp_all add: regex_testUnits_unitsOf)

lemma forbiddenKeywords_letters: "list_all (list_all isLowerLetter) forbiddenKeywords"
  by (simp add: forbiddenKeywords_def isLowerLetter_def)

lemma isReadOnlyQueryUnits_unitsOf: "isReadOnlyQueryUnits h (unitsOf s) = isReadOnlyQuery s"
  by (simp add: isReadOnlyQueryUnits_def isReadOnlyQuery_def Let_def trimUnits_unitsOf
      toLowerCaseUnits_unitsOf startsWithUnits_unitsOf scanForbiddenUnits_unitsOf
      forbiddenKeywords_letters)

subsection \<open>The guard and its specification\<close>

lemmas guard_units_eval =
  isReadOnlyQueryUnits_def trimUnits_def isWhiteSpaceUnit_def toLowerCaseUnits_def
  writtenOut_def lowerUnit_def startsWithUnits_def forbiddenKeywords_def regex_testUnits_def
  matchesAtUnits_def isWordBoundaryUnits_def isWordUnit_def canonicalizeUnit_def
  toUpperCaseUnit_def unitsOf_def plainHost_def Let_def

lemma guard_host_free:
  "list_all writtenOut (trimUnits sql) \<Longrightarrow>
     isReadOnlyQueryUnits h sql = isReadOnlyQueryUnits plainHost sql"
  by (simp add: isReadOnlyQueryUnits_normalised permittedByNormalisedText_def
      toLowerCaseUnits_def)

lemma guard_permits_kelvinCall: "isReadOnlyQueryUnits h kelvinCall"
proof -
  have w: "list_all writtenOut (trimUnits kelvinCall)"
    by (simp add: kelvinCall_def unitsOf_def trimUnits_def isWhiteSpaceUnit_def
        writtenOut_def)
  have p: "isReadOnlyQueryUnits plainHost kelvinCall"
    by (simp add: guard_units_eval kelvinCall_def)
  show ?thesis
    using guard_host_free [OF w] p by (rule iffD2)
qed

lemma guard_permits_dottedCall: "isReadOnlyQueryUnits h dottedCall"
proof -
  have w: "list_all writtenOut (trimUnits dottedCall)"
    by (simp add: dottedCall_def unitsOf_def trimUnits_def isWhiteSpaceUnit_def
        writtenOut_def)
  have p: "isReadOnlyQueryUnits plainHost dottedCall"
    by (simp add: guard_units_eval dottedCall_def)
  show ?thesis
    using guard_host_free [OF w] p by (rule iffD2)
qed

lemma call_in_kelvinCall: "wholeWordOccursUnits (unitsOf ''call'') kelvinCall"
proof -
  have "kelvinCall = (unitsOf ''select '' @ [0x212A]) @ unitsOf ''call'' @ [] \<and>
        map asciiLowerUnit (unitsOf ''call'') = unitsOf ''call'' \<and>
        (unitsOf ''select '' @ [0x212A] = [] \<or>
           \<not> isWordUnit (last (unitsOf ''select '' @ [0x212A]))) \<and>
        ([] = [] \<or> \<not> isWordUnit (hd ([] :: nat list)))"
    by (simp add: kelvinCall_def unitsOf_def asciiLowerUnit_def isWordUnit_def)
  then show ?thesis
    unfolding wholeWordOccursUnits_def by (intro exI)
qed

lemma call_in_dottedCall: "wholeWordOccursUnits (unitsOf ''call'') dottedCall"
proof -
  have "dottedCall = unitsOf ''select '' @ unitsOf ''call'' @ [0x130] \<and>
        map asciiLowerUnit (unitsOf ''call'') = unitsOf ''call'' \<and>
        (unitsOf ''select '' = [] \<or> \<not> isWordUnit (last (unitsOf ''select ''))) \<and>
        ([0x130] = [] \<or> \<not> isWordUnit (hd [0x130]))"
    by (simp add: dottedCall_def unitsOf_def asciiLowerUnit_def isWordUnit_def)
  then show ?thesis
    unfolding wholeWordOccursUnits_def by (intro exI)
qed

text \<open>
  C1, as the specification states it, fails: the guard permits the text \<open>select Kcall\<close>
  whose K is the Kelvin sign U+212A, and the text \<open>select call\<close> followed by U+0130,
  whatever the host's case tables, although in both the denylisted keyword \<open>call\<close>
  occurs as a whole word: the code unit next to it is no word character. Lower-casing turns the Kelvin sign into the letter
  \<open>k\<close> and U+0130 into the letter \<open>i\<close> with a combining dot, and the guard searches the
  lower-cased text, where \<open>call\<close> has a letter next to it.
\<close>

theorem guard_permits_denylisted_word:
  "(\<forall>h. isReadOnlyQueryUnits h kelvinCall) \<and>
   wholeWordOccursUnits (unitsOf ''call'') kelvinCall \<and>
   (\<forall>h. isReadOnlyQueryUnits h dottedCall) \<and>
   wholeWordOccursUnits (unitsOf ''call'') dottedCall \<and>
   ''call'' \<in> set forbiddenKeywords"
  by (intro conjI allI guard_permits_kelvinCall call_in_kelvinCall guard_permits_dottedCall
      call_in_dottedCall) (simp add: forbiddenKeywords_def)

text \<open>
  C1, amended. The guard permits a SQL string if and only if its trimmed, lower-cased form
  starts with \<open>select\<close>, \<open>with\<close> or \<open>explain\<close> and no keyword of the denylist occurs in
  that trimmed, lower-cased form as a whole word, compared case-insensitively. For a
  string of code units below 256 this is the same as no keyword of the denylist
  occurring as a whole word in the string itself, and the guard on code units agrees with
  the guard on such strings. \<open>SELECT 1\<close> and \<open>select * from t\<close> with leading blanks are
  permitted; \<open>DROP TABLE t\<close>, a \<open>SELECT\<close> followed by a \<open>DELETE\<close>, and a \<open>SELECT\<close> with
  \<open>update\<close> inside a string literal are rejected.
\<close>

theorem guard_scans_normalised_text:
  "(\<forall>h sql. isReadOnlyQueryUnits h sql = permittedByNormalisedText h sql) \<and>
   (\<forall>h s. isReadOnlyQueryUnits h (unitsOf s) = isReadOnlyQuery s) \<and>
   (\<forall>s. isReadOnlyQuery s = permittedBySpec s) \<and>
   (\<forall>h. isReadOnlyQueryUnits h (unitsOf ''SELECT 1'')) \<and>
   (\<forall>h. isReadOnlyQueryUnits h (unitsOf ''  select * from t'')) \<and>
   (\<forall>h. \<not> isReadOnlyQueryUnits h (unitsOf ''DROP TABLE t'')) \<and>
   (\<forall>h. \<not> isReadOnlyQueryUnits h (unitsOf ''SELECT * FROM t; DELETE FROM t'')) \<and>
   (\<forall>h. \<not> isReadOnlyQueryUnits h (unitsOf ''SELECT 'update me' FROM t''))"
  unfolding isReadOnlyQueryUnits_unitsOf
  by (intro conjI allI isReadOnlyQueryUnits_normalised isReadOnlyQuery_permittedBySpec
      guard_permits_select_1 guard_permits_padded_select guard_rejects_drop
      guard_rejects_second_statement guard_rejects_literal refl)

theorem guard_scans_normalised_text_witness:
  "permittedByNormalisedText plainHost kelvinCall \<and>
   permittedBySpec ''SELECT 1'' \<and> \<not> permittedBySpec ''DROP TABLE t''"
proof -
  note g = guard_scans_normalised_text
  have a: "isReadOnlyQueryUnits plainHost kelvinCall =
             permittedByNormalisedText plainHost kelvinCall"
    by (rule g [THEN conjunct1, THEN spec, THEN spec])
  have b: "isReadOnlyQuery ''SELECT 1'' = permittedBySpec ''SELECT 1''"
    by (rule g [THEN conjunct2, THEN conjunct2, THEN conjunct1, THEN spec])
  have c: "isReadOnlyQuery ''DROP TABLE t'' = permittedBySpec ''DROP TABLE t''"
    by (rule g [THEN conjunct2, THEN conjunct2, THEN conjunct1, THEN spec])
  have d: "isReadOnlyQueryUnits plainHost kelvinCall"
    by (simp add: guard_units_eval kelvinCall_def)
  have e: "isReadOnlyQuery ''SELECT 1''"
    by (simp add: guard_eval)
  have f: "\<not> isReadOnlyQuery ''DROP TABLE t''"
    by (simp add: guard_eval)
  have p1: "permittedByNormalisedText plainHost kelvinCall"
    using a d by (rule iffD1)
  have p2: "permittedBySpec ''SELECT 1''"
    using b e by (rule iffD1)
  have p3: "\<not> permittedBySpec ''DROP TABLE t''"
    unfolding c [symmetric] by (rule f)
  show ?thesis
    by (intro conjI p1 p2 p3)
qed

section \<open>The registry\<close>

lemma map_of_None_iff: "(map_of conns name = None) = (name \<notin> fst ` set conns)"
  by (simp add: map_of_eq_None_iff)

lemma delete_update_fresh:
  "map_of conns name = None \<Longrightarrow> AList.delete name (AList.update name v conns) = conns"
  by (simp add: delete_update_same map_of_None_iff)

lemma getConnection_update:
  "getConnection (AList.update name v conns) name = Inr (pool v)"
  by (simp add: getConnection_def update_conv')

lemma addConnection_duplicate:
  "map_of conns name \<noteq> None \<Longrightarrow>
     addConnection name h p d u pw conns =
       Inl (DuplicateNameError (''Connection '' @ [squote] @ name @ [squote] @
              '' already exists. Remove it first or use a different name.''))"
  by (simp add: addConnection_def)

lemma addConnection_fresh:
  "map_of conns name = None \<Longrightarrow>
     addConnection name h p d u pw conns =
       Inr (AList.update name
              \<lparr>pool = \<lparr>host = h, port = p, database = d, user = u, password = pw,
                        max_clients = 5, idleTimeoutMillis = 30000,
                        connectionTimeoutMillis = 5000\<rparr>,
               config = \<lparr>host = h, port = p, database = d, user = u\<rparr>\<rparr>
              conns)"
  by (simp add: addConnection_def)

text \<open>The three outcomes of \<open>handleAddConnection\<close>.\<close>

lemma handleAddConnection_duplicate:
  "map_of conns name \<noteq> None \<Longrightarrow>
     handleAddConnection drv name h port_arg d u pw conns w =
       (Inl (DuplicateNameError (''Connection '' @ [squote] @ name @ [squote] @
               '' already exists. Remove it first or use a different name.'')),
        conns, w)"
  by (simp add: handleAddConnection_def Let_def addConnection_duplicate)

lemma handleAddConnection_probe_failed:
  assumes "map_of conns name = None"
    and "pool_query drv
           \<lparr>host = h, port = (case port_arg of None \<Rightarrow> 5432 | Some n \<Rightarrow> n), database = d,
            user = u, password = pw, max_clients = 5, idleTimeoutMillis = 30000,
            connectionTimeoutMillis = 5000\<rparr>
           ''SELECT 1'' None w = (Inl e, w')"
  shows "handleAddConnection drv name h port_arg d u pw conns w = (Inl e, conns, w')"
  using assms
  by (simp add: handleAddConnection_def Let_def addConnection_fresh getConnection_update
      delete_update_fresh)

lemma handleAddConnection_probe_ok:
  assumes "map_of conns name = None"
    and "pool_query drv
           \<lparr>host = h, port = (case port_arg of None \<Rightarrow> 5432 | Some n \<Rightarrow> n), database = d,
            user = u, password = pw, max_clients = 5, idleTimeoutMillis = 30000,
            connectionTimeoutMillis = 5000\<rparr>
           ''SELECT 1'' None w = (Inr r, w')"
  shows "handleAddConnection drv name h port_arg d u pw conns w =
           (Inr (JObject
              [(''success'', JBool True),
               (''message'', JString (''Connection '' @ [squote] @ name @ [squote] @
                                '' added successfully'')),
               (''connection'', JObject
                  [(''name'', JString name),
                   (''host'', JString h),
                   (''port'', JNumber (Num (case port_arg of None \<Rightarrow> 5432 | Some n \<Rightarrow> n))),
                   (''database'', JString d),
                   (''user'', JString u)])]),
            AList.update name
              \<lparr>pool = \<lparr>host = h, port = (case port_arg of None \<Rightarrow> 5432 | Some n \<Rightarrow> n),
                        database = d, user = u, password = pw, max_clients = 5,
                        idleTimeoutMillis = 30000, connectionTimeoutMillis = 5000\<rparr>,
               config = \<lparr>host = h, port = (case port_arg of None \<Rightarrow> 5432 | Some n \<Rightarrow> n),
                          database = d, user = u\<rparr>\<rparr>
              conns,
            w')"
  using assms
  by (simp add: handleAddConnection_def Let_def addConnection_fresh getConnection_update)

lemma handleAddConnection_failure_keeps_registry:
  assumes "handleAddConnection drv name h port_arg d u pw conns w = (Inl e, conns', w')"
  shows "conns' = conns"
proof (cases "map_of conns name = None")
  case False
  then show ?thesis
    using assms by (simp add: handleAddConnection_duplicate)
next
  case True
  obtain reply w1 where q: "pool_query drv
           \<lparr>host = h, port = (case port_arg of None \<Rightarrow> 5432 | Some n \<Rightarrow> n), database = d,
            user = u, password = pw, max_clients = 5, idleTimeoutMillis = 30000,
            connectionTimeoutMillis = 5000\<rparr>
           ''SELECT 1'' None w = (reply, w1)"
    by (cases "pool_query drv
           \<lparr>host = h, port = (case port_arg of None \<Rightarrow> 5432 | Some n \<Rightarrow> n), database = d,
            user = u, password = pw, max_clients = 5, idleTimeoutMillis = 30000,
            connectionTimeoutMillis = 5000\<rparr>
           ''SELECT 1'' None w") blast
  show ?thesis
  proof (cases reply)
    case (Inl e1)
    then show ?thesis
      using assms handleAddConnection_probe_failed [OF True q [unfolded Inl]] by simp
  next
    case (Inr r)
    then show ?thesis
      using assms handleAddConnection_probe_ok [OF True q [unfolded Inr]] by simp
  qed
qed

subsection \<open>The registry while the probe is awaited\<close>









subsection \<open>Removing and looking up\<close>

lemma getConnection_absent:
  "map_of conns name = None \<Longrightarrow>
     getConnection conns name =
       Inl (NotFoundError (''Connection '' @ [squote] @ name @ [squote] @
              '' not found. Available connections: '' @
              (if join '', '' (map fst conns) = [] then ''(none)''
               else join '', '' (map fst conns))))"
  by (simp add: getConnection_def Let_def)

lemma getConnection_present:
  "map_of conns name = Some conn \<Longrightarrow> getConnection conns name = Inr (pool conn)"
  by (simp add: getConnection_def)

lemma join_eq_Nil_iff:
  "sep \<noteq> [] \<Longrightarrow> (join sep xs = []) = (xs = [] \<or> xs = [[]])"
  by (induction sep xs rule: join.induct) auto

lemma map_of_delete_same: "map_of (AList.delete name conns) name = None"
  by (simp add: delete_conv')

lemma removeConnection_absent:
  "map_of conns name = None \<Longrightarrow>
     removeConnection drv name conns w =
       (Inl (NotFoundError (''Connection '' @ [squote] @ name @ [squote] @ '' not found.'')),
        conns, w)"
  by (simp add: removeConnection_def)

lemma removeConnection_ok:
  "map_of conns name = Some conn \<Longrightarrow> pool_end drv (pool conn) w = (None, w') \<Longrightarrow>
     removeConnection drv name conns w = (Inr (), AList.delete name conns, w')"
  by (simp add: removeConnection_def)

lemma removeConnection_end_failed:
  "map_of conns name = Some conn \<Longrightarrow> pool_end drv (pool conn) w = (Some e, w') \<Longrightarrow>
     removeConnection drv name conns w = (Inl e, conns, w')"
  by (simp add: removeConnection_def)

lemma removeConnection_success:
  assumes "removeConnection drv name conns w = (Inr x, conns', w')"
  shows "conns' = AList.delete name conns"
  using assms
  by (auto simp add: removeConnection_def split: option.splits prod.splits)

text \<open>
  After \<open>remove(name)\<close> has returned, \<open>get(name)\<close> fails with the not-found error, and a
  registered name whose pool ends cleanly is removed.
\<close>

lemma remove_then_get_fails:
  assumes "removeConnection drv name conns w = (Inr x, conns', w')"
  shows "\<exists>m. getConnection conns' name = Inl (NotFoundError m)"
  using removeConnection_success [OF assms]
  by (simp add: getConnection_absent map_of_delete_same)

lemma names_stay_distinct_add:
  "distinct (map fst conns) \<Longrightarrow> addConnection name h p d u pw conns = Inr conns' \<Longrightarrow>
     distinct (map fst conns')"
  by (auto simp add: addConnection_def distinct_update split: if_splits)

lemma names_stay_distinct_remove:
  "distinct (map fst conns) \<Longrightarrow> removeConnection drv name conns w = (r, conns', w') \<Longrightarrow>
     distinct (map fst conns')"
  by (auto simp add: removeConnection_def distinct_delete split: option.splits prod.splits)

text \<open>
  C4, the case the code misses. A connection may be registered under the empty name (the
  probe succeeding); the registry then holds one entry, its names joined by a comma are
  the empty text, and \<^verbatim>\<open>|| "(none)"\<close> reports that no connection is registered.
\<close>

theorem empty_name_is_reported_as_none:
  "handleAddConnection (scriptedDriver (\<lambda>db text. Inr oneRow) (\<lambda>db. None))
       [] ''db.example'' None ''app'' ''reader'' ''secret'' [] []
     = (Inr (JObject
          [(''success'', JBool True),
           (''message'', JString (''Connection '' @ [squote, squote] @ '' added successfully'')),
           (''connection'', JObject
              [(''name'', JString []), (''host'', JString ''db.example''),
               (''port'', JNumber (Num 5432)), (''database'', JString ''app''),
               (''user'', JString ''reader'')])]),
        [([], sampleConnection ''db.example'' ''secret'')],
        [(samplePool ''db.example'' ''secret'', ''SELECT 1'', None)]) \<and>
   map fst [([] :: string, sampleConnection ''db.example'' ''secret'')] \<noteq> [] \<and>
   getConnection [([], sampleConnection ''db.example'' ''secret'')] ''orders''
     = Inl (NotFoundError ''Connection 'orders' not found. Available connections: (none)'')"
  by (simp add: handleAddConnection_def addConnection_def getConnection_def Let_def
      scriptedDriver_def sampleConnection_def samplePool_def squote_def)

subsection \<open>The password\<close>

lemma displayView_update:
  "displayView (AList.update name v conns) = AList.update name (config v) (displayView conns)"
  by (induction conns) (auto simp add: displayView_def)

lemma map_of_displayView:
  "map_of (displayView conns) name = map_option config (map_of conns name)"
  by (induction conns) (auto simp add: displayView_def)

lemma handleListConnections_view:
  "handleListConnections conns =
     JArray (map (\<lambda>(name, c).
               JObject [(''name'', JString name),
                        (''host'', JString (host c)),
                        (''port'', JNumber (Num (port c))),
                        (''database'', JString (database c)),
                        (''user'', JString (user c))])
             (displayView conns))"
  by (simp add: handleListConnections_def displayView_def split_def)

lemma handleListConnections_fields:
  "list_all (\<lambda>entry. fieldNames entry = [''name'', ''host'', ''port'', ''database'', ''user''])
     (elements (handleListConnections conns))"
  by (simp add: handleListConnections_def list_all_iff split_def)

lemma handleAddConnection_success:
  assumes "handleAddConnection drv name h port_arg d u pw conns w = (Inr r, conns', w')"
  shows "map_of conns name = None \<and>
         r = JObject
              [(''success'', JBool True),
               (''message'', JString (''Connection '' @ [squote] @ name @ [squote] @
                                '' added successfully'')),
               (''connection'', JObject
                  [(''name'', JString name),
                   (''host'', JString h),
                   (''port'', JNumber (Num (case port_arg of None \<Rightarrow> 5432 | Some n \<Rightarrow> n))),
                   (''database'', JString d),
                   (''user'', JString u)])] \<and>
         displayView conns' =
           AList.update name
             \<lparr>host = h, port = (case port_arg of None \<Rightarrow> 5432 | Some n \<Rightarrow> n),
              database = d, user = u\<rparr>
             (displayView conns)"
proof (cases "map_of conns name = None")
  case False
  then show ?thesis
    using assms by (simp add: handleAddConnection_duplicate)
next
  case True
  obtain reply w1 where q: "pool_query drv
           \<lparr>host = h, port = (case port_arg of None \<Rightarrow> 5432 | Some n \<Rightarrow> n), database = d,
            user = u, password = pw, max_clients = 5, idleTimeoutMillis = 30000,
            connectionTimeoutMillis = 5000\<rparr>
           ''SELECT 1'' None w = (reply, w1)"
    by (cases "pool_query drv
           \<lparr>host = h, port = (case port_arg of None \<Rightarrow> 5432 | Some n \<Rightarrow> n), database = d,
            user = u, password = pw, max_clients = 5, idleTimeoutMillis = 30000,
            connectionTimeoutMillis = 5000\<rparr>
           ''SELECT 1'' None w") blast
  show ?thesis
  proof (cases reply)
    case (Inl e1)
    then show ?thesis
      using assms handleAddConnection_probe_failed [OF True q [unfolded Inl]] by simp
  next
    case (Inr res)
    then show ?thesis
      using assms True handleAddConnection_probe_ok [OF True q [unfolded Inr]]
      by (auto simp add: displayView_update)
  qed
qed

text \<open>
  C5, as the specification states it, fails: two runs that differ in the password alone
  need not give the same \<open>list_connections\<close> output. On a database that accepts the
  password \<open>alpha\<close> only, the run with \<open>alpha\<close> succeeds and leaves a registry whose
  listing has the entry \<open>src\<close>, and the run with \<open>omega\<close>, the same in everything else,
  fails at its probe and leaves a registry whose listing is empty.
\<close>

theorem password_decides_listing:
  "handleAddConnection (passwordCheckingDriver ''alpha'')
     ''src'' ''db.example'' None ''app'' ''reader'' ''alpha'' [] []
   = (Inr (JObject
          [(''success'', JBool True),
           (''message'', JString ''Connection 'src' added successfully''),
           (''connection'', JObject
              [(''name'', JString ''src''), (''host'', JString ''db.example''),
               (''port'', JNumber (Num 5432)), (''database'', JString ''app''),
               (''user'', JString ''reader'')])]),
      [(''src'', sampleConnection ''db.example'' ''alpha'')],
      [(samplePool ''db.example'' ''alpha'', ''SELECT 1'', None)]) \<and>
   handleAddConnection (passwordCheckingDriver ''alpha'')
     ''src'' ''db.example'' None ''app'' ''reader'' ''omega'' [] []
   = (Inl (DriverError ''password authentication failed''), [],
      [(samplePool ''db.example'' ''omega'', ''SELECT 1'', None)]) \<and>
   handleListConnections [(''src'', sampleConnection ''db.example'' ''alpha'')]
   = JArray
       [JObject [(''name'', JString ''src''), (''host'', JString ''db.example''),
                 (''port'', JNumber (Num 5432)), (''database'', JString ''app''),
                 (''user'', JString ''reader'')]] \<and>
   handleListConnections [] = JArray [] \<and>
   handleListConnections
     (fst (snd (handleAddConnection (passwordCheckingDriver ''alpha'')
        ''src'' ''db.example'' None ''app'' ''reader'' ''alpha'' [] [])))
   \<noteq> handleListConnections
     (fst (snd (handleAddConnection (passwordCheckingDriver ''alpha'')
        ''src'' ''db.example'' None ''app'' ''reader'' ''omega'' [] [])))"
  by (simp add: handleAddConnection_def addConnection_def getConnection_def
      handleListConnections_def Let_def passwordCheckingDriver_def scriptedDriver_def
      sampleConnection_def samplePool_def squote_def)

lemma handleAddConnection_view:
  assumes "handleAddConnection drv name h port_arg d u pw conns w = (res, conns', w')"
  shows "displayView conns' =
           (case res of
              Inl e \<Rightarrow> displayView conns
            | Inr r \<Rightarrow>
                AList.update name
                  \<lparr>host = h, port = (case port_arg of None \<Rightarrow> 5432 | Some n \<Rightarrow> n),
                   database = d, user = u\<rparr>
                  (displayView conns))"
proof (cases res)
  case (Inl e)
  then show ?thesis
    using handleAddConnection_failure_keeps_registry [OF assms [unfolded Inl]] by simp
next
  case (Inr r)
  then show ?thesis
    using handleAddConnection_success [OF assms [unfolded Inr]] by simp
qed

text \<open>
  C5, amended. The password reaches a listing through the outcome of the probe alone.
  After a run of \<open>add_connection\<close> the registry shows, when the run failed, the names
  and display fields it showed before, and when the run succeeded, those with the new
  entry built from host, port, database and user; \<open>list_connections\<close> returns one object
  for each entry the registry shows, made of its name and display fields. So two runs
  that differ in the password, whatever the drivers answer and whatever passwords the
  pools already registered hold, and that end alike (both succeed or both fail): the two
  registries show the same names and display fields and the two \<open>list_connections\<close>
  outputs are equal; when they succeed the two responses are equal. The connection object
  of a response and every object of a listing have exactly the properties name, host,
  port, database and user.
\<close>

theorem password_shows_through_outcome_alone:
  assumes "displayView conns1 = displayView conns2"
    and "handleAddConnection drv1 name h port_arg d u pw1 conns1 w1 = (res1, conns1', w1')"
    and "handleAddConnection drv2 name h port_arg d u pw2 conns2 w2 = (res2, conns2', w2')"
    and "isl res1 = isl res2"
  shows "displayView conns1' = displayView conns2' \<and>
         handleListConnections conns1' = handleListConnections conns2' \<and>
         (\<forall>r1 r2. res1 = Inr r1 \<longrightarrow> res2 = Inr r2 \<longrightarrow>
            r1 = r2 \<and>
            map_of (displayView conns1') name =
              Some \<lparr>host = h, port = (case port_arg of None \<Rightarrow> 5432 | Some n \<Rightarrow> n),
                    database = d, user = u\<rparr> \<and>
            fieldNames (getProp r1 ''connection'') =
              [''name'', ''host'', ''port'', ''database'', ''user'']) \<and>
         list_all (\<lambda>entry. fieldNames entry = [''name'', ''host'', ''port'', ''database'', ''user''])
           (elements (handleListConnections conns1')) \<and>
         displayView conns1' =
           (case res1 of
              Inl e \<Rightarrow> displayView conns1
            | Inr r \<Rightarrow>
                AList.update name
                  \<lparr>host = h, port = (case port_arg of None \<Rightarrow> 5432 | Some n \<Rightarrow> n),
                   database = d, user = u\<rparr>
                  (displayView conns1)) \<and>
         handleListConnections conns1' =
           JArray (map (\<lambda>(name, c).
                     JObject [(''name'', JString name),
                              (''host'', JString (host c)),
                              (''port'', JNumber (Num (port c))),
                              (''database'', JString (database c)),
                              (''user'', JString (user c))])
                   (displayView conns1'))"
proof -
  have v: "displayView conns1' = displayView conns2'"
  proof (cases res1)
    case (Inl e1)
    then obtain e2 where e2: "res2 = Inl e2" using assms(4) by (cases res2) auto
    have "conns1' = conns1"
      using handleAddConnection_failure_keeps_registry [OF assms(2) [unfolded Inl]] .
    moreover have "conns2' = conns2"
      using handleAddConnection_failure_keeps_registry [OF assms(3) [unfolded e2]] .
    ultimately show ?thesis using assms(1) by simp
  next
    case (Inr r1)
    then obtain r2 where r2: "res2 = Inr r2" using assms(4) by (cases res2) auto
    note s1 = handleAddConnection_success [OF assms(2) [unfolded Inr]]
    note s2 = handleAddConnection_success [OF assms(3) [unfolded r2]]
    show ?thesis using s1 s2 assms(1) by simp
  qed
  have l: "handleListConnections conns1' = handleListConnections conns2'"
    using v by (simp add: handleListConnections_view)
  have r: "\<forall>r1 r2. res1 = Inr r1 \<longrightarrow> res2 = Inr r2 \<longrightarrow>
            r1 = r2 \<and>
            map_of (displayView conns1') name =
              Some \<lparr>host = h, port = (case port_arg of None \<Rightarrow> 5432 | Some n \<Rightarrow> n),
                    database = d, user = u\<rparr> \<and>
            fieldNames (getProp r1 ''connection'') =
              [''name'', ''host'', ''port'', ''database'', ''user'']"
  proof (intro allI impI)
    fix r1 r2
    assume a: "res1 = Inr r1" and b: "res2 = Inr r2"
    note s1 = handleAddConnection_success [OF assms(2) [unfolded a]]
    note s2 = handleAddConnection_success [OF assms(3) [unfolded b]]
    have "r1 = r2" using s1 s2 by simp
    moreover have "map_of (displayView conns1') name =
              Some \<lparr>host = h, port = (case port_arg of None \<Rightarrow> 5432 | Some n \<Rightarrow> n),
                    database = d, user = u\<rparr>"
      using s1 by (simp add: update_conv')
    moreover have "fieldNames (getProp r1 ''connection'') =
              [''name'', ''host'', ''port'', ''database'', ''user'']"
      using s1 by (simp add: getField_def)
    ultimately show "r1 = r2 \<and>
            map_of (displayView conns1') name =
              Some \<lparr>host = h, port = (case port_arg of None \<Rightarrow> 5432 | Some n \<Rightarrow> n),
                    database = d, user = u\<rparr> \<and>
            fieldNames (getProp r1 ''connection'') =
              [''name'', ''host'', ''port'', ''database'', ''user'']"
      by blast
  qed
  show ?thesis
    by (intro conjI v l r handleListConnections_fields handleAddConnection_view [OF assms(2)]
        handleListConnections_view)
qed

theorem password_shows_through_outcome_alone_witness:
  "fst (handleAddConnection (scriptedDriver (\<lambda>db text. Inr oneRow) (\<lambda>db. None))
          ''dst'' ''db.example'' None ''app'' ''reader'' ''alpha''
          [(''src'', sampleConnection ''old.example'' ''old'')] [])
   = fst (handleAddConnection (scriptedDriver (\<lambda>db text. Inr oneRow) (\<lambda>db. None))
          ''dst'' ''db.example'' None ''app'' ''reader'' ''omega''
          [(''src'', sampleConnection ''old.example'' ''older'')] []) \<and>
   handleListConnections
     [(''src'', sampleConnection ''old.example'' ''old''),
      (''dst'', sampleConnection ''db.example'' ''alpha'')]
   = handleListConnections
     [(''src'', sampleConnection ''old.example'' ''older''),
      (''dst'', sampleConnection ''db.example'' ''omega'')] \<and>
   handleListConnections
     [(''src'', sampleConnection ''old.example'' ''old''),
      (''dst'', sampleConnection ''db.example'' ''alpha'')]
   = JArray
       [JObject [(''name'', JString ''src''), (''host'', JString ''old.example''),
                 (''port'', JNumber (Num 5432)), (''database'', JString ''app''),
                 (''user'', JString ''reader'')],
        JObject [(''name'', JString ''dst''), (''host'', JString ''db.example''),
                 (''port'', JNumber (Num 5432)), (''database'', JString ''app''),
                 (''user'', JString ''reader'')]] \<and>
   sampleConnection ''db.example'' ''alpha'' \<noteq> sampleConnection ''db.example'' ''omega''"
proof -
  let ?drv = "scriptedDriver (\<lambda>db text. Inr oneRow) (\<lambda>db. None)"
  let ?resp = "JObject
          [(''success'', JBool True),
           (''message'', JString ''Connection 'dst' added successfully''),
           (''connection'', JObject
              [(''name'', JString ''dst''), (''host'', JString ''db.example''),
               (''port'', JNumber (Num 5432)), (''database'', JString ''app''),
               (''user'', JString ''reader'')])]"
  have a: "handleAddConnection ?drv ''dst'' ''db.example'' None ''app'' ''reader'' ''alpha''
       [(''src'', sampleConnection ''old.example'' ''old'')] []
     = (Inr ?resp,
        [(''src'', sampleConnection ''old.example'' ''old''),
         (''dst'', sampleConnection ''db.example'' ''alpha'')],
        [(samplePool ''db.example'' ''alpha'', ''SELECT 1'', None)])"
    by (simp add: handleAddConnection_def addConnection_def getConnection_def Let_def
        scriptedDriver_def sampleConnection_def samplePool_def squote_def)
  have b: "handleAddConnection ?drv ''dst'' ''db.example'' None ''app'' ''reader'' ''omega''
       [(''src'', sampleConnection ''old.example'' ''older'')] []
     = (Inr ?resp,
        [(''src'', sampleConnection ''old.example'' ''older''),
         (''dst'', sampleConnection ''db.example'' ''omega'')],
        [(samplePool ''db.example'' ''omega'', ''SELECT 1'', None)])"
    by (simp add: handleAddConnection_def addConnection_def getConnection_def Let_def
        scriptedDriver_def sampleConnection_def samplePool_def squote_def)
  have c: "displayView [(''src'', sampleConnection ''old.example'' ''old'')]
         = displayView [(''src'', sampleConnection ''old.example'' ''older'')]"
    by (simp add: displayView_def sampleConnection_def)
  have d: "sampleConnection ''db.example'' ''alpha'' \<noteq> sampleConnection ''db.example'' ''omega''"
    by (simp add: sampleConnection_def samplePool_def)
  have i: "isl (Inr ?resp :: error + jsval) = isl (Inr ?resp :: error + jsval)" by simp
  note t = password_shows_through_outcome_alone [OF c a b i]
  have l: "handleListConnections
     [(''src'', sampleConnection ''old.example'' ''old''),
      (''dst'', sampleConnection ''db.example'' ''alpha'')]
   = handleListConnections
     [(''src'', sampleConnection ''old.example'' ''older''),
      (''dst'', sampleConnection ''db.example'' ''omega'')]"
    by (rule t [THEN conjunct2, THEN conjunct1])
  have v: "handleListConnections
     [(''src'', sampleConnection ''old.example'' ''old''),
      (''dst'', sampleConnection ''db.example'' ''alpha'')]
   = JArray
       [JObject [(''name'', JString ''src''), (''host'', JString ''old.example''),
                 (''port'', JNumber (Num 5432)), (''database'', JString ''app''),
                 (''user'', JString ''reader'')],
        JObject [(''name'', JString ''dst''), (''host'', JString ''db.example''),
                 (''port'', JNumber (Num 5432)), (''database'', JString ''app''),
                 (''user'', JString ''reader'')]]"
    by (simp add: handleListConnections_def sampleConnection_def)
  have r: "fst (handleAddConnection ?drv ''dst'' ''db.example'' None ''app'' ''reader'' ''alpha''
          [(''src'', sampleConnection ''old.example'' ''old'')] [])
   = fst (handleAddConnection ?drv ''dst'' ''db.example'' None ''app'' ''reader'' ''omega''
          [(''src'', sampleConnection ''old.example'' ''older'')] [])"
    unfolding a b by simp
  show ?thesis
    by (intro conjI r l v d)
qed

section \<open>The query operation\<close>

lemma includes_str_iff: "includes_str s sub = (\<exists>pre post. s = pre @ sub @ post)"
proof (induction s)
  case Nil
  show ?case by auto
next
  case (Cons c cs)
  show ?case
  proof
    assume "includes_str (c # cs) sub"
    then consider "startsWith (c # cs) sub" | "includes_str cs sub" by auto
    then show "\<exists>pre post. c # cs = pre @ sub @ post"
    proof cases
      case 1
      then have "c # cs = [] @ sub @ drop (length sub) (c # cs)"
        unfolding startsWith_def by (metis append_Nil append_take_drop_id)
      then show ?thesis by blast
    next
      case 2
      then obtain pre post where "cs = pre @ sub @ post" using Cons.IH by blast
      then have "c # cs = (c # pre) @ sub @ post" by simp
      then show ?thesis by blast
    qed
  next
    assume "\<exists>pre post. c # cs = pre @ sub @ post"
    then obtain pre post where d: "c # cs = pre @ sub @ post" by blast
    show "includes_str (c # cs) sub"
    proof (cases pre)
      case Nil
      then have "startsWith (c # cs) sub" using d by (simp add: startsWith_def)
      then show ?thesis by simp
    next
      case (Cons p pre')
      then have "cs = pre' @ sub @ post" using d by simp
      then have "includes_str cs sub" using Cons.IH by blast
      then show ?thesis by simp
    qed
  qed
qed

lemma trim_decomposition:
  "\<exists>a b. s = a @ trim s @ b \<and> list_all isWhiteSpace a \<and> list_all isWhiteSpace b"
proof -
  define d where "d = dropWhile isWhiteSpace s"
  have s: "s = takeWhile isWhiteSpace s @ d" by (simp add: d_def)
  have "rev d = takeWhile isWhiteSpace (rev d) @ dropWhile isWhiteSpace (rev d)" by simp
  then have "rev (rev d) =
      rev (dropWhile isWhiteSpace (rev d)) @ rev (takeWhile isWhiteSpace (rev d))"
    by (metis rev_append)
  then have d: "d = trim s @ rev (takeWhile isWhiteSpace (rev d))"
    by (simp add: trim_def d_def)
  have a: "list_all isWhiteSpace (takeWhile isWhiteSpace s)"
    by (simp add: list_all_iff) (metis set_takeWhileD)
  have b: "list_all isWhiteSpace (rev (takeWhile isWhiteSpace (rev d)))"
    by (simp add: list_all_iff) (metis set_takeWhileD)
  have "s = takeWhile isWhiteSpace s @ trim s @ rev (takeWhile isWhiteSpace (rev d))"
    using s d by simp
  then show ?thesis using a b by blast
qed

lemma digitChar_value: "d < 10 \<Longrightarrow> (of_char (digitChar d) :: nat) = 48 + d"
proof -
  assume "d < 10"
  then have "d \<in> {0, 1, 2, 3, 4, 5, 6, 7, 8, 9}" by auto
  then show ?thesis by (auto simp add: digitChar_def)
qed

lemma valueOfDigits_snoc:
  "valueOfDigits (s @ [c]) = 10 * valueOfDigits s + (of_char c - 48)"
  by (simp add: valueOfDigits_def)

lemma valueOfDigits_digitsOf: "valueOfDigits (digitsOf n) = n"
proof (induction n rule: digitsOf.induct)
  case (1 n)
  show ?case
  proof (cases "n < 10")
    case True
    then show ?thesis
      by (subst digitsOf.simps) (simp add: valueOfDigits_def digitChar_value)
  next
    case False
    then have "valueOfDigits (digitsOf n) =
        10 * valueOfDigits (digitsOf (n div 10)) + (of_char (digitChar (n mod 10)) - 48)"
      by (subst digitsOf.simps) (simp add: valueOfDigits_snoc)
    then show ?thesis
      using False 1 by (simp add: digitChar_value)
  qed
qed

lemma numberToString_value: "0 \<le> i \<Longrightarrow> int (valueOfDigits (numberToString i)) = i"
  by (simp add: numberToString_def valueOfDigits_digitsOf)

text \<open>The one call \<open>handleQuery\<close> makes once guard and lookup have passed.\<close>

lemma handleQuery_call:
  assumes "isReadOnlyQuery sql" and "getConnection conns connection = Inr db"
  shows "handleQuery drv conns connection sql params_arg limit_arg w =
           (case pool_query drv db
                   (if includes_str (toLowerCase (trim sql)) ''limit'' then trim sql
                    else trim sql @ '' LIMIT '' @
                         numberToString
                           (min (max 1 (case limit_arg of None \<Rightarrow> 100 | Some n \<Rightarrow> n)) 1000))
                   (Some (case params_arg of None \<Rightarrow> [] | Some ps \<Rightarrow> ps)) w of
              (Inl e, w') \<Rightarrow> (Inl e, w')
            | (Inr result, w') \<Rightarrow>
                (Inr (JObject [(''rowCount'', rowCount result),
                               (''rows'', JArray (map JObject (rows result)))]),
                 w'))"
  using assms by (simp add: handleQuery_def Let_def)

lemma handleQuery_rejected:
  "\<not> isReadOnlyQuery sql \<Longrightarrow>
     handleQuery drv conns connection sql params_arg limit_arg w =
       (Inl (NotReadOnlyError
          ''Only read-only queries (SELECT, WITH, EXPLAIN) are allowed. Modification statements are not permitted.''),
        w)"
  by (simp add: handleQuery_def Let_def)

lemma handleQuery_unknown_connection:
  "isReadOnlyQuery sql \<Longrightarrow> getConnection conns connection = Inl e \<Longrightarrow>
     handleQuery drv conns connection sql params_arg limit_arg w = (Inl e, w)"
  by (simp add: handleQuery_def Let_def)

lemma statementsSent_eq:
  assumes "isReadOnlyQuery sql" and "getConnection conns connection = Inr db"
  shows "statementsSent conns connection sql params_arg limit_arg =
           [if includes_str (toLowerCase (trim sql)) ''limit'' then trim sql
            else trim sql @ '' LIMIT '' @
                 numberToString
                   (min (max 1 (case limit_arg of None \<Rightarrow> 100 | Some n \<Rightarrow> n)) 1000)]"
  unfolding statementsSent_def handleQuery_call [OF assms]
  by (simp add: scriptedDriver_def)

text \<open>
  C10. For permitted SQL \<open>s\<close> on a registered connection and the caller's limit \<open>n\<close>,
  with \<open>k = min (max 1 n) 1000\<close>: whatever the driver, the handler makes the one call
  \<open>query\<close> with \<open>trim s\<close> when the lower-cased \<open>trim s\<close> contains \<open>limit\<close> as a substring,
  and with \<open>trim s\<close> followed by \<open>LIMIT k\<close> otherwise, and answers with what that call
  returned; so the statement sent is \<open>trim s\<close> with the suffix if and only if \<open>limit\<close>
  does not occur, and \<open>k\<close> lies between 1 and 1000 and is written in decimal.
\<close>

theorem query_appends_limit_unless_text_has_limit:
  assumes "isReadOnlyQuery sql" and "getConnection conns connection = Inr db"
  shows "handleQuery drv conns connection sql params_arg (Some n) w =
           (case pool_query drv db
                   (if includes_str (toLowerCase (trim sql)) ''limit'' then trim sql
                    else trim sql @ '' LIMIT '' @ numberToString (min (max 1 n) 1000))
                   (Some (case params_arg of None \<Rightarrow> [] | Some ps \<Rightarrow> ps)) w of
              (Inl e, w') \<Rightarrow> (Inl e, w')
            | (Inr result, w') \<Rightarrow>
                (Inr (JObject [(''rowCount'', rowCount result),
                               (''rows'', JArray (map JObject (rows result)))]),
                 w')) \<and>
         (statementsSent conns connection sql params_arg (Some n) =
            [trim sql @ '' LIMIT '' @ numberToString (min (max 1 n) 1000)])
           = (\<not> (\<exists>pre post. toLowerCase (trim sql) = pre @ ''limit'' @ post)) \<and>
         (statementsSent conns connection sql params_arg (Some n) = [trim sql])
           = (\<exists>pre post. toLowerCase (trim sql) = pre @ ''limit'' @ post) \<and>
         1 \<le> min (max 1 n) 1000 \<and> min (max 1 n) 1000 \<le> 1000 \<and>
         int (valueOfDigits (numberToString (min (max 1 n) 1000))) = min (max 1 n) 1000"
proof -
  have call: "handleQuery drv conns connection sql params_arg (Some n) w =
           (case pool_query drv db
                   (if includes_str (toLowerCase (trim sql)) ''limit'' then trim sql
                    else trim sql @ '' LIMIT '' @ numberToString (min (max 1 n) 1000))
                   (Some (case params_arg of None \<Rightarrow> [] | Some ps \<Rightarrow> ps)) w of
              (Inl e, w') \<Rightarrow> (Inl e, w')
            | (Inr result, w') \<Rightarrow>
                (Inr (JObject [(''rowCount'', rowCount result),
                               (''rows'', JArray (map JObject (rows result)))]),
                 w'))"
    using handleQuery_call [OF assms, of drv params_arg "Some n" w] by simp
  have sent: "statementsSent conns connection sql params_arg (Some n) =
           [if includes_str (toLowerCase (trim sql)) ''limit'' then trim sql
            else trim sql @ '' LIMIT '' @ numberToString (min (max 1 n) 1000)]"
    using statementsSent_eq [OF assms, of params_arg "Some n"] by simp
  have a: "(statementsSent conns connection sql params_arg (Some n) =
            [trim sql @ '' LIMIT '' @ numberToString (min (max 1 n) 1000)])
           = (\<not> (\<exists>pre post. toLowerCase (trim sql) = pre @ ''limit'' @ post))"
    unfolding sent includes_str_iff [symmetric] by simp
  have b: "(statementsSent conns connection sql params_arg (Some n) = [trim sql])
           = (\<exists>pre post. toLowerCase (trim sql) = pre @ ''limit'' @ post)"
    unfolding sent includes_str_iff [symmetric] by simp
  have k: "1 \<le> min (max 1 n) 1000" "min (max 1 n) 1000 \<le> 1000" by simp_all
  have v: "int (valueOfDigits (numberToString (min (max 1 n) 1000))) = min (max 1 n) 1000"
    by (rule numberToString_value) simp
  show ?thesis by (intro conjI call a b k v)
qed

lemma guard_permits_limit_date: "isReadOnlyQuery ''select limit_date from t''"
  by (simp add: guard_eval)

lemma sample_getConnection:
  "getConnection [(''main'', sampleConnection ''db.example'' ''secret'')] ''main'' =
     Inr (samplePool ''db.example'' ''secret'')"
  by (simp add: getConnection_def sampleConnection_def)

lemma trim_limit_date: "trim ''select limit_date from t'' = ''select limit_date from t''"
  by (simp add: trim_def isWhiteSpace_def)

lemma lower_limit_date:
  "toLowerCase ''select limit_date from t'' = ''select '' @ ''limit'' @ ''_date from t''"
  by (simp add: toLowerCase_def toLowerChar_def Let_def)

theorem query_appends_limit_unless_text_has_limit_witness:
  "statementsSent [(''main'', sampleConnection ''db.example'' ''secret'')] ''main''
     ''select limit_date from t'' None (Some 5) = [''select limit_date from t'']"
proof -
  note t = query_appends_limit_unless_text_has_limit
    [OF guard_permits_limit_date sample_getConnection, of _ None 5]
  have "\<exists>pre post. toLowerCase (trim ''select limit_date from t'') = pre @ ''limit'' @ post"
    unfolding trim_limit_date lower_limit_date by blast
  then show ?thesis
    using t [THEN conjunct2, THEN conjunct2, THEN conjunct1] trim_limit_date by simp
qed

text \<open>C2 as stated fails: the accepted \<open>SELECT 1\<close> is sent with a row cap appended.\<close>

theorem query_sends_modified_text:
  "isReadOnlyQuery ''SELECT 1'' \<and>
   statementsSent [(''main'', sampleConnection ''db.example'' ''secret'')] ''main''
     ''SELECT 1'' None None = [''SELECT 1 LIMIT 100''] \<and>
   ''SELECT 1 LIMIT 100'' \<noteq> ''SELECT 1''"
proof -
  have a: "statementsSent [(''main'', sampleConnection ''db.example'' ''secret'')] ''main''
     ''SELECT 1'' None None = [''SELECT 1 LIMIT 100'']"
    unfolding statementsSent_eq [OF guard_permits_select_1 sample_getConnection]
    by (simp add: trim_def isWhiteSpace_def toLowerCase_def toLowerChar_def Let_def
        startsWith_def numberToString_def digitsOf.simps digitChar_def char_of_eq_iff)
  show ?thesis using guard_permits_select_1 a by simp
qed

text \<open>
  C2, amended. For SQL accepted by the guard on a registered connection, the statement
  sent is the input without its surrounding whitespace, in the input's own letter case,
  followed by nothing or by the row cap; lower-casing only decides which. An input with
  no surrounding whitespace that contains \<open>limit\<close> is sent unmodified.
\<close>

theorem query_sends_trimmed_text:
  assumes "isReadOnlyQuery sql" and "getConnection conns connection = Inr db"
  shows "\<exists>a b suffix.
           sql = a @ trim sql @ b \<and> list_all isWhiteSpace a \<and> list_all isWhiteSpace b \<and>
           statementsSent conns connection sql params_arg limit_arg = [trim sql @ suffix] \<and>
           (suffix = [] \<or>
            suffix = '' LIMIT '' @
              numberToString (min (max 1 (case limit_arg of None \<Rightarrow> 100 | Some n \<Rightarrow> n)) 1000)) \<and>
           (suffix = []) = includes_str (toLowerCase (trim sql)) ''limit'' \<and>
           (trim sql = sql \<and> includes_str (toLowerCase sql) ''limit'' \<longrightarrow>
              statementsSent conns connection sql params_arg limit_arg = [sql])"
proof -
  obtain a b where ab: "sql = a @ trim sql @ b" "list_all isWhiteSpace a"
      "list_all isWhiteSpace b"
    using trim_decomposition [of sql] by blast
  define suffix where "suffix =
    (if includes_str (toLowerCase (trim sql)) ''limit'' then []
     else '' LIMIT '' @
       numberToString (min (max 1 (case limit_arg of None \<Rightarrow> 100 | Some n \<Rightarrow> n)) 1000))"
  have sent: "statementsSent conns connection sql params_arg limit_arg = [trim sql @ suffix]"
    unfolding statementsSent_eq [OF assms] suffix_def by simp
  have c: "suffix = [] \<or>
            suffix = '' LIMIT '' @
              numberToString (min (max 1 (case limit_arg of None \<Rightarrow> 100 | Some n \<Rightarrow> n)) 1000)"
    by (simp add: suffix_def)
  have d: "(suffix = []) = includes_str (toLowerCase (trim sql)) ''limit''"
    by (simp add: suffix_def)
  have e: "trim sql = sql \<and> includes_str (toLowerCase sql) ''limit'' \<longrightarrow>
              statementsSent conns connection sql params_arg limit_arg = [sql]"
    using sent d by auto
  show ?thesis using ab sent c d e by blast
qed

theorem query_sends_trimmed_text_witness:
  "\<exists>a b suffix.
     ''  select * from t'' = a @ trim ''  select * from t'' @ b \<and>
     statementsSent [(''main'', sampleConnection ''db.example'' ''secret'')] ''main''
       ''  select * from t'' None None = [trim ''  select * from t'' @ suffix]"
  using query_sends_trimmed_text [OF guard_permits_padded_select sample_getConnection, of None None]
  by blast

section \<open>Comparing row counts\<close>

lemma compareOne_cases:
  "compareOne drv parseInt sourceDb targetDb schema (JString t) w =
     (case pool_query drv sourceDb (countQueryFor schema t) None w of
        (sourceReply, w1) \<Rightarrow>
          (case pool_query drv targetDb (countQueryFor schema t) None w1 of
             (targetReply, w2) \<Rightarrow>
               (case (case sourceReply of Inl e \<Rightarrow> Inl e | Inr r \<Rightarrow> countOf parseInt r) of
                  Inl e \<Rightarrow> (errorEntry (JString t) e, w2)
                | Inr sc \<Rightarrow>
                    (case (case targetReply of
                             Inl e \<Rightarrow> None
                           | Inr r \<Rightarrow> (case countOf parseInt r of
                                         Inl e \<Rightarrow> None | Inr n \<Rightarrow> Some n)) of
                       None \<Rightarrow>
                         (JObject [(''table'', JString t), (''source_count'', JNumber sc),
                                   (''target_count'', JNull), (''difference'', JNull),
                                   (''match'', JBool False)], w2)
                     | Some tc \<Rightarrow>
                         (JObject [(''table'', JString t), (''source_count'', JNumber sc),
                                   (''target_count'', JNumber tc),
                                   (''difference'', JNumber (numSub tc sc)),
                                   (''match'', JBool (numStrictEq sc tc))], w2)))))"
  by (simp add: compareOne_def escapeIdentifierValue_def countQueryFor_def Let_def
      split: prod.splits sum.splits option.splits)


lemma compareOne_source_unreadable:
  assumes "pool_query drv sourceDb (countQueryFor schema t) None w = (Inr r, w1)"
    and "countOf parseInt r = Inl e"
  shows "fst (compareOne drv parseInt sourceDb targetDb schema (JString t) w) =
           JObject [(''table'', JString t), (''error'', JString (message e))]"
  using assms
  by (simp add: compareOne_cases errorEntry_def split: prod.splits)


lemma compareOne_both_counted:
  assumes "pool_query drv sourceDb (countQueryFor schema t) None w = (Inr r, w1)"
    and "countOf parseInt r = Inr sc"
    and "pool_query drv targetDb (countQueryFor schema t) None w1 = (Inr r', w2)"
    and "countOf parseInt r' = Inr tc"
  shows "fst (compareOne drv parseInt sourceDb targetDb schema (JString t) w) =
           JObject [(''table'', JString t), (''source_count'', JNumber sc),
                    (''target_count'', JNumber tc),
                    (''difference'', JNumber (numSub tc sc)),
                    (''match'', JBool (numStrictEq sc tc))]"
  using assms
  by (simp add: compareOne_cases)













section \<open>Validation of spreadsheet paths\<close>

lemma validateFilePath_missing:
  "\<not> fs_existsSync env (path_resolve env filePath) w \<Longrightarrow>
     validateFilePath env filePath w =
       Inl (FileNotFoundError (''File not found: '' @ path_resolve env filePath))"
  by (simp add: validateFilePath_def Let_def)

lemma validateFilePath_unsupported:
  "fs_existsSync env (path_resolve env filePath) w \<Longrightarrow>
   toLowerCase (path_extname env (path_resolve env filePath))
     \<notin> set [''.xlsx'', ''.xls'', ''.csv'', ''.ods''] \<Longrightarrow>
     validateFilePath env filePath w =
       Inl (UnsupportedFormatError
              (''Unsupported file format: '' @
               toLowerCase (path_extname env (path_resolve env filePath)) @
               ''. Supported formats: .xlsx, .xls, .csv, .ods''))"
  by (simp add: validateFilePath_def supportedExtensions_def Let_def)

lemma validateFilePath_Inr_iff:
  "(validateFilePath env filePath w = Inr rp) =
     (rp = path_resolve env filePath \<and>
      fs_existsSync env (path_resolve env filePath) w \<and>
      toLowerCase (path_extname env (path_resolve env filePath))
        \<in> set [''.xlsx'', ''.xls'', ''.csv'', ''.ods''])"
  by (auto simp add: validateFilePath_def supportedExtensions_def Let_def)

lemma validateFilePath_parser_free:
  "validateFilePath (env\<lparr>xlsx_readFile := parser\<rparr>) filePath w = validateFilePath env filePath w"
  by (simp add: validateFilePath_def Let_def)

lemmas tool_defs =
  spreadsheetTools_def list_sheets_def read_spreadsheet_def get_cell_range_def
  get_sheet_info_def

lemma tool_on_invalid_path:
  assumes "tool \<in> set (spreadsheetTools sheetName useHeader rangeText)"
    and "validateFilePath env filePath w = Inl e"
  shows "tool (env\<lparr>xlsx_readFile := parser\<rparr>) filePath w =
           (ToolError (''Error: '' @ message e), w)"
  using assms
  by (auto simp add: tool_defs validateFilePath_parser_free errorResult_def)

lemma tool_parser_failed:
  assumes "tool \<in> set (spreadsheetTools sheetName useHeader rangeText)"
    and "validateFilePath env filePath w = Inr rp"
    and "parser rp w = (Inl e, w')"
  shows "tool (env\<lparr>xlsx_readFile := parser\<rparr>) filePath w =
           (ToolError (''Error: '' @ message e), w')"
  using assms
  by (auto simp add: tool_defs validateFilePath_parser_free errorResult_def)

lemma tool_reads_resolved_path_only:
  assumes "tool \<in> set (spreadsheetTools sheetName useHeader rangeText)"
    and "validateFilePath env filePath w = Inr rp"
    and "parser rp w = parser' rp w"
  shows "tool (env\<lparr>xlsx_readFile := parser\<rparr>) filePath w =
         tool (env\<lparr>xlsx_readFile := parser'\<rparr>) filePath w"
  using assms
  by (auto simp add: tool_defs validateFilePath_parser_free Let_def
      split: prod.splits sum.splits)

text \<open>
  C8. Validation of a path fails with the file-not-found error when the resolved path
  does not exist, and with the unsupported-format error when it exists and its
  lower-cased extension is none of \<open>.xlsx\<close>, \<open>.xls\<close>, \<open>.csv\<close>, \<open>.ods\<close>; it returns the
  resolved path exactly when both checks pass. Each of the four tools, on a path that
  fails validation, answers with the error text and leaves the world as it was, whatever
  the parser is; on a path that passes, it consults the parser on the resolved path in
  the current world and nowhere else, and a failure of the parser there is its answer.
\<close>

theorem validation_gates_the_parser:
  "(\<not> fs_existsSync env (path_resolve env filePath) w \<longrightarrow>
      validateFilePath env filePath w =
        Inl (FileNotFoundError (''File not found: '' @ path_resolve env filePath))) \<and>
   (fs_existsSync env (path_resolve env filePath) w \<and>
    toLowerCase (path_extname env (path_resolve env filePath))
      \<notin> set [''.xlsx'', ''.xls'', ''.csv'', ''.ods''] \<longrightarrow>
      validateFilePath env filePath w =
        Inl (UnsupportedFormatError
               (''Unsupported file format: '' @
                toLowerCase (path_extname env (path_resolve env filePath)) @
                ''. Supported formats: .xlsx, .xls, .csv, .ods''))) \<and>
   (\<forall>rp. (validateFilePath env filePath w = Inr rp) =
      (rp = path_resolve env filePath \<and>
       fs_existsSync env (path_resolve env filePath) w \<and>
       toLowerCase (path_extname env (path_resolve env filePath))
         \<in> set [''.xlsx'', ''.xls'', ''.csv'', ''.ods''])) \<and>
   (\<forall>tool \<in> set (spreadsheetTools sheetName useHeader rangeText).
      (\<forall>e parser.
         validateFilePath env filePath w = Inl e \<longrightarrow>
         tool (env\<lparr>xlsx_readFile := parser\<rparr>) filePath w =
           (ToolError (''Error: '' @ message e), w)) \<and>
      (\<forall>rp parser parser'.
         validateFilePath env filePath w = Inr rp \<longrightarrow>
         parser rp w = parser' rp w \<longrightarrow>
         tool (env\<lparr>xlsx_readFile := parser\<rparr>) filePath w =
         tool (env\<lparr>xlsx_readFile := parser'\<rparr>) filePath w) \<and>
      (\<forall>rp parser e w'.
         validateFilePath env filePath w = Inr rp \<longrightarrow>
         parser rp w = (Inl e, w') \<longrightarrow>
         tool (env\<lparr>xlsx_readFile := parser\<rparr>) filePath w =
           (ToolError (''Error: '' @ message e), w')))"
proof (intro conjI allI impI ballI)
  show "validateFilePath env filePath w =
        Inl (FileNotFoundError (''File not found: '' @ path_resolve env filePath))"
    if "\<not> fs_existsSync env (path_resolve env filePath) w"
    using that by (rule validateFilePath_missing)
  show "validateFilePath env filePath w =
        Inl (UnsupportedFormatError
               (''Unsupported file format: '' @
                toLowerCase (path_extname env (path_resolve env filePath)) @
                ''. Supported formats: .xlsx, .xls, .csv, .ods''))"
    if "fs_existsSync env (path_resolve env filePath) w \<and>
        toLowerCase (path_extname env (path_resolve env filePath))
          \<notin> set [''.xlsx'', ''.xls'', ''.csv'', ''.ods'']"
    by (rule validateFilePath_unsupported [OF that [THEN conjunct1] that [THEN conjunct2]])
  show "(validateFilePath env filePath w = Inr rp) =
      (rp = path_resolve env filePath \<and>
       fs_existsSync env (path_resolve env filePath) w \<and>
       toLowerCase (path_extname env (path_resolve env filePath))
         \<in> set [''.xlsx'', ''.xls'', ''.csv'', ''.ods''])" for rp
    by (rule validateFilePath_Inr_iff)
  show "tool (env\<lparr>xlsx_readFile := parser\<rparr>) filePath w =
          (ToolError (''Error: '' @ message e), w)"
    if "tool \<in> set (spreadsheetTools sheetName useHeader rangeText)"
      and "validateFilePath env filePath w = Inl e" for tool e parser
    using that by (rule tool_on_invalid_path)
  show "tool (env\<lparr>xlsx_readFile := parser\<rparr>) filePath w =
        tool (env\<lparr>xlsx_readFile := parser'\<rparr>) filePath w"
    if "tool \<in> set (spreadsheetTools sheetName useHeader rangeText)"
      and "validateFilePath env filePath w = Inr rp"
      and "parser rp w = parser' rp w" for tool rp parser parser'
    using that by (rule tool_reads_resolved_path_only)
  show "tool (env\<lparr>xlsx_readFile := parser\<rparr>) filePath w =
          (ToolError (''Error: '' @ message e), w')"
    if "tool \<in> set (spreadsheetTools sheetName useHeader rangeText)"
      and "validateFilePath env filePath w = Inr rp"
      and "parser rp w = (Inl e, w')" for tool rp parser e w'
    using that by (rule tool_parser_failed)
qed

lemmas sheets_eval =
  samplePlatform_def sampleResolve_def posixExtname_def toLowerCase_def toLowerChar_def
  Let_def char_of_eq_iff

theorem validation_gates_the_parser_witness:
  "validateFilePath (samplePlatform [''/work/report.XLSX'', ''/work/notes.txt''])
     ''absent.csv'' [] = Inl (FileNotFoundError ''File not found: /work/absent.csv'') \<and>
   validateFilePath (samplePlatform [''/work/report.XLSX'', ''/work/notes.txt''])
     ''notes.txt'' [] =
       Inl (UnsupportedFormatError
         ''Unsupported file format: .txt. Supported formats: .xlsx, .xls, .csv, .ods'') \<and>
   validateFilePath (samplePlatform [''/work/report.XLSX'', ''/work/notes.txt''])
     ''report.XLSX'' [] = Inr ''/work/report.XLSX'' \<and>
   list_sheets (samplePlatform [''/work/report.XLSX'', ''/work/notes.txt''])
     ''notes.txt'' [] =
       (ToolError
          ''Error: Unsupported file format: .txt. Supported formats: .xlsx, .xls, .csv, .ods'',
        []) \<and>
   list_sheets (samplePlatform [''/work/report.XLSX'', ''/work/notes.txt''])
     ''report.XLSX'' [] =
       (ToolText (JObject [(''sheets'', JArray [JString ''Sheet1'']),
                           (''count'', JNumber (Num 1))]),
        [''/work/report.XLSX''])"
proof -
  let ?env = "samplePlatform [''/work/report.XLSX'', ''/work/notes.txt'']"
  have r1: "path_resolve ?env ''absent.csv'' = ''/work/absent.csv''"
    by (simp add: sheets_eval)
  have r2: "path_resolve ?env ''notes.txt'' = ''/work/notes.txt''"
    by (simp add: sheets_eval)
  have r3: "path_resolve ?env ''report.XLSX'' = ''/work/report.XLSX''"
    by (simp add: sheets_eval)
  have x2: "toLowerCase (path_extname ?env ''/work/notes.txt'') = ''.txt''"
    by (simp add: sheets_eval)
  have x3: "toLowerCase (path_extname ?env ''/work/report.XLSX'') = ''.xlsx''"
    by (simp add: sheets_eval)
  have e1: "\<not> fs_existsSync ?env (path_resolve ?env ''absent.csv'') []"
    unfolding r1 by (simp add: samplePlatform_def)
  have e2: "fs_existsSync ?env (path_resolve ?env ''notes.txt'') []"
    unfolding r2 by (simp add: samplePlatform_def)
  have e3: "fs_existsSync ?env (path_resolve ?env ''report.XLSX'') []"
    unfolding r3 by (simp add: samplePlatform_def)
  note t1 = validation_gates_the_parser [of ?env "''absent.csv''" "[]", THEN conjunct1]
  note t2 = validation_gates_the_parser [of ?env "''notes.txt''" "[]"]
  note t3 = validation_gates_the_parser [of ?env "''report.XLSX''" "[]"]
  have a: "validateFilePath ?env ''absent.csv'' [] =
             Inl (FileNotFoundError ''File not found: /work/absent.csv'')"
    using t1 e1 r1 by simp
  have b: "validateFilePath ?env ''notes.txt'' [] =
       Inl (UnsupportedFormatError
         ''Unsupported file format: .txt. Supported formats: .xlsx, .xls, .csv, .ods'')"
    using t2 [THEN conjunct2, THEN conjunct1] e2 r2 x2 by simp
  have c: "validateFilePath ?env ''report.XLSX'' [] = Inr ''/work/report.XLSX''"
    using t3 [THEN conjunct2, THEN conjunct2, THEN conjunct1] e3 r3 x3 by simp
  have d: "list_sheets ?env ''notes.txt'' [] =
       (ToolError
          ''Error: Unsupported file format: .txt. Supported formats: .xlsx, .xls, .csv, .ods'',
        [])"
    using b by (simp add: list_sheets_def errorResult_def)
  have e: "list_sheets ?env ''report.XLSX'' [] =
       (ToolText (JObject [(''sheets'', JArray [JString ''Sheet1'']),
                           (''count'', JNumber (Num 1))]),
        [''/work/report.XLSX''])"
    using c by (simp add: list_sheets_def samplePlatform_def)
  show ?thesis by (intro conjI a b c d e)
qed

end
